theory Spec2Isabelle
  imports Complex_Main "HOL-Library.AList" "HOL-Library.Multiset" "HOL-Library.Sublist"
begin

section \<open>Python values and the operations the services use on them\<close>

text \<open>
  The services work on loosely typed records (\<^verbatim>\<open>Dict[str, Any]\<close>): JSON-like values
  whose runtime type the code sometimes tests (\<^verbatim>\<open>isinstance\<close>) and sometimes
  assumes.  A value is therefore a \<open>pyval\<close>, and every operation that Python
  rejects on a value of the wrong type returns the exception as \<open>Inl\<close>.

  Floats are idealised as reals.  Strings are lists of 8-bit characters; case mapping
  and character classes are the ASCII ones, so the model agrees with Python on ASCII
  text.  A dictionary is an association list in insertion order, read with
  \<open>map_of\<close> and written with \<open>AList.update\<close>.
\<close>

datatype pyval =
    PNone
  | PBool bool
  | PInt int
  | PFloat real
  | PStr string
  | PList "pyval list"
  | PDict "(string \<times> pyval) list"

datatype py_error = AttributeError | TypeError | KeyError | IndexError

type_synonym pydict = "(string \<times> pyval) list"

definition bindE :: "py_error + 'a \<Rightarrow> ('a \<Rightarrow> py_error + 'b) \<Rightarrow> py_error + 'b" where
  "bindE m f = (case m of Inl e \<Rightarrow> Inl e | Inr x \<Rightarrow> f x)"

text \<open>A \<^verbatim>\<open>for\<close> loop whose body updates the local state and may raise.\<close>

fun for_each :: "('a \<Rightarrow> 's \<Rightarrow> py_error + 's) \<Rightarrow> 'a list \<Rightarrow> 's \<Rightarrow> py_error + 's" where
  "for_each f [] s = Inr s"
| "for_each f (x # xs) s = bindE (f x s) (for_each f xs)"

text \<open>A list comprehension whose element expression may raise.\<close>

fun map_each :: "('a \<Rightarrow> py_error + 'b) \<Rightarrow> 'a list \<Rightarrow> py_error + 'b list" where
  "map_each f [] = Inr []"
| "map_each f (x # xs) = bindE (f x) (\<lambda>y. bindE (map_each f xs) (\<lambda>ys. Inr (y # ys)))"

text \<open>
  What the Python runtime fixes and the repository does not: the text \<^verbatim>\<open>str()\<close>
  gives for a float or a container, and the order in which a \<^verbatim>\<open>set\<close> is
  iterated (a function of the elements in insertion order).  Both are parameters of
  the model.
\<close>

record py_runtime =
  str_other :: "pyval \<Rightarrow> string"
  set_order :: "pyval list \<Rightarrow> pyval list"

subsection \<open>Characters and strings\<close>

definition ascii_upper :: string where
  "ascii_upper = ''ABCDEFGHIJKLMNOPQRSTUVWXYZ''"

definition ascii_lower :: string where
  "ascii_lower = ''abcdefghijklmnopqrstuvwxyz''"

definition ascii_digits :: string where
  "ascii_digits = ''0123456789''"

definition is_upper :: "char \<Rightarrow> bool" where
  "is_upper c = (c \<in> set ascii_upper)"

definition is_lower :: "char \<Rightarrow> bool" where
  "is_lower c = (c \<in> set ascii_lower)"

definition is_alpha :: "char \<Rightarrow> bool" where
  "is_alpha c = (is_upper c \<or> is_lower c)"

text \<open>\<^verbatim>\<open>\w\<close>: letters, digits and the underscore.\<close>

definition is_word :: "char \<Rightarrow> bool" where
  "is_word c = (is_alpha c \<or> c \<in> set ascii_digits \<or> c = CHR ''_'')"

text \<open>\<^verbatim>\<open>\s\<close> and \<^verbatim>\<open>str.isspace\<close>: codes 9 to 13, 28 to 31 and the space.\<close>

definition is_space :: "char \<Rightarrow> bool" where
  "is_space c = (c \<in> set [CHR 0x09, CHR 0x0A, CHR 0x0B, CHR 0x0C, CHR 0x0D,
                            CHR 0x1C, CHR 0x1D, CHR 0x1E, CHR 0x1F, CHR '' ''])"

definition lower_char :: "char \<Rightarrow> char" where
  "lower_char c = (case map_of (zip ascii_upper ascii_lower) c of Some l \<Rightarrow> l | None \<Rightarrow> c)"

definition upper_char :: "char \<Rightarrow> char" where
  "upper_char c = (case map_of (zip ascii_lower ascii_upper) c of Some u \<Rightarrow> u | None \<Rightarrow> c)"

definition str_lower :: "string \<Rightarrow> string" where
  "str_lower s = map lower_char s"

text \<open>\<^verbatim>\<open>s.replace(c, new)\<close> for a one-character \<^verbatim>\<open>c\<close>, the only use in the code.\<close>

definition str_replace :: "char \<Rightarrow> string \<Rightarrow> string \<Rightarrow> string" where
  "str_replace c new s = concat (map (\<lambda>x. if x = c then new else [x]) s)"

definition str_capitalize :: "string \<Rightarrow> string" where
  "str_capitalize s = (case s of [] \<Rightarrow> [] | c # cs \<Rightarrow> upper_char c # map lower_char cs)"

fun title_from :: "bool \<Rightarrow> string \<Rightarrow> string" where
  "title_from prev [] = []"
| "title_from prev (c # cs) =
     (if is_alpha c then (if prev then lower_char c else upper_char c) # title_from True cs
      else c # title_from False cs)"

definition str_title :: "string \<Rightarrow> string" where
  "str_title s = title_from False s"

definition str_isalpha :: "string \<Rightarrow> bool" where
  "str_isalpha s = (s \<noteq> [] \<and> list_all is_alpha s)"

text \<open>\<^verbatim>\<open>s.split(sep)\<close> and \<^verbatim>\<open>re.split\<close> on a character class: never an empty list.\<close>

fun split_on :: "(char \<Rightarrow> bool) \<Rightarrow> string \<Rightarrow> string list" where
  "split_on P [] = [[]]"
| "split_on P (c # cs) =
     (if P c then [] # split_on P cs
      else (case split_on P cs of [] \<Rightarrow> [[c]] | w # ws \<Rightarrow> (c # w) # ws))"

text \<open>\<^verbatim>\<open>s.split()\<close>: the maximal runs of non-whitespace.\<close>

definition str_split_ws :: "string \<Rightarrow> string list" where
  "str_split_ws s = filter (\<lambda>w. w \<noteq> []) (split_on is_space s)"

definition str_join :: "string \<Rightarrow> string list \<Rightarrow> string" where
  "str_join sep ws = (case ws of [] \<Rightarrow> [] | w # rest \<Rightarrow> w @ concat (map (\<lambda>x. sep @ x) rest))"

fun starts_with :: "string \<Rightarrow> string \<Rightarrow> bool" where
  "starts_with [] s = True"
| "starts_with (p # ps) [] = False"
| "starts_with (p # ps) (c # cs) = (p = c \<and> starts_with ps cs)"

text \<open>\<^verbatim>\<open>sub in s\<close> on strings.\<close>

fun str_contains :: "string \<Rightarrow> string \<Rightarrow> bool" where
  "str_contains sub [] = (sub = [])"
| "str_contains sub (c # cs) = (starts_with sub (c # cs) \<or> str_contains sub cs)"

function show_nat :: "nat \<Rightarrow> string" where
  "show_nat n = (if n < 10 then [ascii_digits ! n] else show_nat (n div 10) @ [ascii_digits ! (n mod 10)])"
  by pat_completeness auto
termination
  by (relation "measure (\<lambda>n. n)") auto

definition show_int :: "int \<Rightarrow> string" where
  "show_int i = (if i < 0 then CHR ''-'' # show_nat (nat (- i)) else show_nat (nat i))"

subsection \<open>Dynamic operations\<close>

text \<open>\<^verbatim>\<open>bool(v)\<close>.\<close>

fun truthy :: "pyval \<Rightarrow> bool" where
  "truthy PNone = False"
| "truthy (PBool b) = b"
| "truthy (PInt i) = (i \<noteq> 0)"
| "truthy (PFloat r) = (r \<noteq> 0)"
| "truthy (PStr s) = (s \<noteq> [])"
| "truthy (PList xs) = (xs \<noteq> [])"
| "truthy (PDict kvs) = (kvs \<noteq> [])"

text \<open>\<^verbatim>\<open>str(v)\<close>, as an f-string applies it.\<close>

definition py_str :: "py_runtime \<Rightarrow> pyval \<Rightarrow> string" where
  "py_str rt v =
     (case v of
        PStr s \<Rightarrow> s
      | PNone \<Rightarrow> ''None''
      | PBool b \<Rightarrow> (if b then ''True'' else ''False'')
      | PInt i \<Rightarrow> show_int i
      | _ \<Rightarrow> str_other rt v)"

text \<open>\<^verbatim>\<open>d.get(k, default)\<close>, \<^verbatim>\<open>d[k]\<close> and \<^verbatim>\<open>k in d\<close> on a dictionary.\<close>

definition dict_get :: "('k \<times> 'v) list \<Rightarrow> 'k \<Rightarrow> 'v \<Rightarrow> 'v" where
  "dict_get d k dflt = (case map_of d k of Some v \<Rightarrow> v | None \<Rightarrow> dflt)"

definition dict_index :: "('k \<times> 'v) list \<Rightarrow> 'k \<Rightarrow> py_error + 'v" where
  "dict_index d k = (case map_of d k of Some v \<Rightarrow> Inr v | None \<Rightarrow> Inl KeyError)"

definition dict_has :: "('k \<times> 'v) list \<Rightarrow> 'k \<Rightarrow> bool" where
  "dict_has d k = (map_of d k \<noteq> None)"

text \<open>\<^verbatim>\<open>for x in v\<close>: a string yields its characters, a dictionary its keys.\<close>

definition py_iter :: "pyval \<Rightarrow> py_error + pyval list" where
  "py_iter v =
     (case v of
        PList xs \<Rightarrow> Inr xs
      | PStr s \<Rightarrow> Inr (map (\<lambda>c. PStr [c]) s)
      | PDict kvs \<Rightarrow> Inr (map (\<lambda>kv. PStr (fst kv)) kvs)
      | _ \<Rightarrow> Inl TypeError)"

text \<open>\<^verbatim>\<open>v.lower()\<close>: only a string has the method.\<close>

definition py_lower :: "pyval \<Rightarrow> py_error + string" where
  "py_lower v = (case v of PStr s \<Rightarrow> Inr (str_lower s) | _ \<Rightarrow> Inl AttributeError)"

text \<open>\<^verbatim>\<open>len(v)\<close>.\<close>

definition py_len :: "pyval \<Rightarrow> py_error + nat" where
  "py_len v =
     (case v of
        PStr s \<Rightarrow> Inr (length s)
      | PList xs \<Rightarrow> Inr (length xs)
      | PDict kvs \<Rightarrow> Inr (length kvs)
      | _ \<Rightarrow> Inl TypeError)"

text \<open>
  \<^verbatim>\<open>v[:n] + '...' if len(v) > n else v\<close>.  A long list fails at the
  concatenation with a string, a long dictionary at the slice.
\<close>

definition py_truncate :: "nat \<Rightarrow> pyval \<Rightarrow> py_error + pyval" where
  "py_truncate n v =
     bindE (py_len v) (\<lambda>l.
       if l > n then (case v of PStr s \<Rightarrow> Inr (PStr (take n s @ ''...'')) | _ \<Rightarrow> Inl TypeError)
       else Inr v)"

text \<open>\<^verbatim>\<open>'@' in v\<close> for a string needle.\<close>

definition py_contains :: "string \<Rightarrow> pyval \<Rightarrow> py_error + bool" where
  "py_contains needle v =
     (case v of
        PStr s \<Rightarrow> Inr (str_contains needle s)
      | PList xs \<Rightarrow> Inr (PStr needle \<in> set xs)
      | PDict kvs \<Rightarrow> Inr (needle \<in> set (map fst kvs))
      | _ \<Rightarrow> Inl TypeError)"

definition is_dict :: "pyval \<Rightarrow> bool" where
  "is_dict v = (case v of PDict _ \<Rightarrow> True | _ \<Rightarrow> False)"

definition is_str :: "pyval \<Rightarrow> bool" where
  "is_str v = (case v of PStr _ \<Rightarrow> True | _ \<Rightarrow> False)"

section \<open>Entity extractor\<close>

subsection \<open>Topic classifier\<close>

definition topic_categories :: "(string \<times> string list) list" where
  "topic_categories =
     [(''pricing'', [''price'', ''cost'', ''budget'', ''pricing'', ''discount'', ''fee'', ''payment'', ''invoice'']),
      (''technical'', [''api'', ''integration'', ''development'', ''technical'', ''code'', ''system'', ''platform'']),
      (''security'', [''security'', ''compliance'', ''privacy'', ''audit'', ''encryption'', ''authentication'']),
      (''support'', [''support'', ''help'', ''issue'', ''problem'', ''bug'', ''maintenance'', ''troubleshoot'']),
      (''business'', [''business'', ''strategy'', ''growth'', ''revenue'', ''expansion'', ''partnership'']),
      (''product'', [''product'', ''feature'', ''functionality'', ''capability'', ''solution'', ''offering'']),
      (''timeline'', [''timeline'', ''schedule'', ''deadline'', ''delivery'', ''launch'', ''implementation'']),
      (''meeting'', [''meeting'', ''call'', ''discussion'', ''presentation'', ''demo'', ''review''])]"

text \<open>
  The phrase pattern
  \<^verbatim>\<open>\b[A-Z][a-z]+ [A-Z][a-z]+(?:\s+[A-Z][a-z]+)*\b\<close>
  of \<^verbatim>\<open>re.findall\<close>.  Every repetition in it is greedy and followed by a
  character outside its own class, so giving characters back never helps; the only
  backtracking that can succeed drops whole trailing words.  \<open>match_word\<close> is
  \<^verbatim>\<open>[A-Z][a-z]+\<close> with the longest run, \<open>match_more\<close> lists the successive
  \<^verbatim>\<open>\s+[A-Z][a-z]+\<close> groups, and \<open>match_phrase\<close> takes the longest
  candidate that ends at a word boundary.
\<close>

fun match_word :: "string \<Rightarrow> (string \<times> string) option" where
  "match_word [] = None"
| "match_word (c # cs) =
     (if is_upper c \<and> takeWhile is_lower cs \<noteq> []
      then Some (c # takeWhile is_lower cs, dropWhile is_lower cs) else None)"

function match_more :: "string \<Rightarrow> (string \<times> string) list" where
  "match_more s =
     (if takeWhile is_space s = [] then []
      else (case match_word (dropWhile is_space s) of
              None \<Rightarrow> []
            | Some (w, r) \<Rightarrow> (takeWhile is_space s @ w, r) # match_more r))"
  by pat_completeness auto
termination
proof (relation "measure length", goal_cases)
  case 1
  show ?case by simp
next
  case (2 s x2 w r)
  then have "match_word (dropWhile is_space s) = Some (w, r)"
    by simp
  then have "length r < length (dropWhile is_space s)"
    by (cases "dropWhile is_space s")
       (auto split: if_splits intro: le_imp_less_Suc length_dropWhile_le)
  also have "\<dots> \<le> length s"
    by (rule length_dropWhile_le)
  finally show ?case by simp
qed

fun extend :: "string \<Rightarrow> (string \<times> string) list \<Rightarrow> (string \<times> string) list" where
  "extend acc [] = []"
| "extend acc ((chunk, r) # xs) = (acc @ chunk, r) # extend (acc @ chunk) xs"

definition at_boundary :: "string \<times> string \<Rightarrow> bool" where
  "at_boundary mr = (case snd mr of [] \<Rightarrow> True | c # _ \<Rightarrow> \<not> is_word c)"

definition match_phrase :: "char option \<Rightarrow> string \<Rightarrow> string option" where
  "match_phrase prev s =
     (if (case prev of None \<Rightarrow> False | Some p \<Rightarrow> is_word p) then None
      else (case match_word s of
              None \<Rightarrow> None
            | Some (w1, r1) \<Rightarrow>
                (case r1 of
                   [] \<Rightarrow> None
                 | c # r1' \<Rightarrow>
                     if c \<noteq> CHR '' '' then None
                     else (case match_word r1' of
                             None \<Rightarrow> None
                           | Some (w2, r2) \<Rightarrow>
                               map_option fst
                                 (find at_boundary
                                    (rev ((w1 @ '' '' @ w2, r2)
                                          # extend (w1 @ '' '' @ w2) (match_more r2))))))))"

text \<open>
  The scan of \<^verbatim>\<open>findall\<close>: leftmost match first, the next search starting where
  the match ended.  The first argument counts the characters of the last match that
  are still to be skipped, the second is the character before the position.
\<close>

fun scan_phrases :: "nat \<Rightarrow> char option \<Rightarrow> string \<Rightarrow> string list" where
  "scan_phrases k prev [] = []"
| "scan_phrases (Suc k) prev (c # cs) = scan_phrases k (Some c) cs"
| "scan_phrases 0 prev (c # cs) =
     (case match_phrase prev (c # cs) of
        Some m \<Rightarrow> m # scan_phrases (length m - 1) (Some c) cs
      | None \<Rightarrow> scan_phrases 0 (Some c) cs)"

definition findall_phrases :: "string \<Rightarrow> string list" where
  "findall_phrases s = scan_phrases 0 None s"

definition category_topic :: "string \<Rightarrow> string \<times> string list \<Rightarrow> pydict list" where
  "category_topic text_lower ck =
     (let category = fst ck; keywords = snd ck;
          matches = length (filter (\<lambda>keyword. str_contains keyword text_lower) keywords);
          importance = min (real matches / real (length keywords)) 1
      in if matches > 0
         then [[(''id'', PStr (''topic_'' @ category)),
                (''name'', PStr (str_title (str_replace CHR ''_'' '' '' category))),
                (''category'', PStr category),
                (''importance'', PFloat importance),
                (''keyword_matches'', PInt (int matches)),
                (''confidence'', PFloat (min (0.3 + importance * 0.7) 1)),
                (''source'', PStr ''text_analysis'')]]
         else [])"

definition custom_topic :: "string \<Rightarrow> pydict list" where
  "custom_topic topic_phrase =
     (if length (str_split_ws topic_phrase) \<le> 3
      then [[(''id'', PStr (''custom_'' @ str_replace CHR '' '' ''_'' (str_lower topic_phrase))),
             (''name'', PStr topic_phrase),
             (''category'', PStr ''custom''),
             (''importance'', PFloat 0.5),
             (''confidence'', PFloat 0.4),
             (''source'', PStr ''phrase_extraction'')]]
      else [])"

definition extract_topics_from_text :: "pyval \<Rightarrow> py_error + pydict list" where
  "extract_topics_from_text text =
     (if \<not> truthy text then Inr []
      else bindE (py_lower text) (\<lambda>text_lower.
             Inr (concat (map (category_topic text_lower) topic_categories)
                  @ concat (map custom_topic
                      (take 5 (findall_phrases (case text of PStr s \<Rightarrow> s | _ \<Rightarrow> [])))))))"

subsection \<open>Sentiment and people\<close>

definition positive_words :: "string list" where
  "positive_words = [''good'', ''great'', ''excellent'', ''positive'', ''happy'', ''satisfied'', ''success'', ''amazing'']"

definition negative_words :: "string list" where
  "negative_words = [''bad'', ''poor'', ''negative'', ''unhappy'', ''problem'', ''issue'', ''concern'', ''worried'']"

definition analyze_sentiment :: "pyval \<Rightarrow> py_error + string" where
  "analyze_sentiment text =
     (if \<not> truthy text then Inr ''neutral''
      else bindE (py_lower text) (\<lambda>text_lower.
             let positive_count = length (filter (\<lambda>word. str_contains word text_lower) positive_words);
                 negative_count = length (filter (\<lambda>word. str_contains word text_lower) negative_words)
             in Inr (if positive_count > negative_count then ''positive''
                     else if negative_count > positive_count then ''negative''
                     else ''neutral'')))"

text \<open>The id of a person or participant known by an address.\<close>

definition address_id :: "string \<Rightarrow> string" where
  "address_id a = str_replace CHR ''.'' ''_'' (str_replace CHR ''@'' ''_at_'' a)"

definition person_of_address :: "string \<Rightarrow> string \<Rightarrow> string \<Rightarrow> py_error + pydict" where
  "person_of_address email_address local_part domain =
     (let name_parts = split_on (\<lambda>c. c \<in> set ''._-'') local_part;
          name = str_join '' '' (map str_capitalize (filter str_isalpha name_parts))
      in (case split_on (\<lambda>c. c = CHR ''.'') domain of
            [] \<Rightarrow> Inl IndexError
          | label # _ \<Rightarrow>
              Inr [(''id'', PStr (address_id email_address)),
                   (''name'', PStr (if name \<noteq> [] then name else local_part)),
                   (''email'', PStr email_address),
                   (''organization'', PStr (str_capitalize label)),
                   (''confidence'', PFloat 0.6),
                   (''source'', PStr ''email_address'')]))"

definition extract_person_from_email :: "pyval \<Rightarrow> py_error + pydict option" where
  "extract_person_from_email email_address =
     (if \<not> truthy email_address then Inr None
      else bindE (py_contains ''@'' email_address) (\<lambda>has_at.
             if \<not> has_at then Inr None
             else (case email_address of
                     PStr s \<Rightarrow>
                       (case split_on (\<lambda>c. c = CHR ''@'') s of
                          local_part # domain # _ \<Rightarrow>
                            bindE (person_of_address s local_part domain) (\<lambda>p. Inr (Some p))
                        | _ \<Rightarrow> Inl IndexError)
                   | _ \<Rightarrow> Inl AttributeError)))"

definition stakeholder_step :: "pyval \<Rightarrow> pydict list \<Rightarrow> py_error + pydict list" where
  "stakeholder_step stakeholder people =
     (case stakeholder of
        PDict d \<Rightarrow>
          bindE (py_lower (dict_get d ''name'' (PStr []))) (\<lambda>low.
            Inr (people @
              [[(''id'', PStr (str_replace CHR '' '' ''_'' low)),
                (''name'', dict_get d ''name'' (PStr [])),
                (''email'', dict_get d ''email'' (PStr [])),
                (''role'', dict_get d ''persona_type'' (PStr [])),
                (''department'', dict_get d ''department'' (PStr [])),
                (''organization'', dict_get d ''organization'' (PStr [])),
                (''influence'', dict_get d ''influence'' (PStr ''medium'')),
                (''confidence'', PFloat 0.9),
                (''source'', PStr ''stakeholder_data'')]]))
      | _ \<Rightarrow> Inr people)"

definition extract_people_from_stakeholders :: "pyval \<Rightarrow> py_error + pydict list" where
  "extract_people_from_stakeholders stakeholders =
     bindE (py_iter stakeholders) (\<lambda>items. for_each stakeholder_step items [])"

subsection \<open>Per-source extraction\<close>

type_synonym buckets = "(string \<times> pydict list) list"

definition empty_entities :: buckets where
  "empty_entities = [(''people'', []), (''organizations'', []), (''topics'', []), (''events'', [])]"

text \<open>\<^verbatim>\<open>target[k].extend(xs)\<close>, the key created when it is absent.\<close>

definition extend_bucket :: "string \<Rightarrow> pydict list \<Rightarrow> buckets \<Rightarrow> buckets" where
  "extend_bucket k xs b = AList.update k (dict_get b k [] @ xs) b"

definition merge_entities :: "buckets \<Rightarrow> buckets \<Rightarrow> buckets" where
  "merge_entities target source = fold (\<lambda>kv t. extend_bucket (fst kv) (snd kv) t) source target"

definition address_step :: "pyval \<Rightarrow> buckets \<Rightarrow> py_error + buckets" where
  "address_step email_addr entities =
     (if \<not> truthy email_addr then Inr entities
      else bindE (py_contains ''@'' email_addr) (\<lambda>has_at.
             if \<not> has_at then Inr entities
             else bindE (extract_person_from_email email_addr) (\<lambda>person.
                    case person of
                      Some p \<Rightarrow> Inr (extend_bucket ''people'' [p] entities)
                    | None \<Rightarrow> Inr entities)))"

definition email_message_step :: "py_runtime \<Rightarrow> pyval \<Rightarrow> buckets \<Rightarrow> py_error + buckets" where
  "email_message_step rt message entities =
     (case message of
        PDict m \<Rightarrow>
          (let sender = dict_get m ''from'' (PStr []);
               to = dict_get m ''to'' (PList []);
               recipients = (if is_str to then PList [to] else to)
           in (case recipients of
                 PList rs \<Rightarrow>
                   bindE (for_each address_step (sender # rs) entities) (\<lambda>entities1.
                     let subject = dict_get m ''subject'' (PStr []);
                         body = dict_get m ''body'' (PStr []);
                         text_content = py_str rt subject @ '' '' @ py_str rt body
                     in bindE (extract_topics_from_text (PStr text_content)) (\<lambda>topics.
                        bindE (py_truncate 200 body) (\<lambda>summary.
                        bindE (analyze_sentiment body) (\<lambda>sentiment.
                          Inr (extend_bucket ''events''
                                 [[(''id'', PStr (''email_'' @ py_str rt (dict_get m ''timestamp'' (PStr [])))),
                                   (''type'', PStr ''email''),
                                   (''date'', dict_get m ''timestamp'' (PStr [])),
                                   (''subject'', subject),
                                   (''summary'', summary),
                                   (''participants'', PList (sender # rs)),
                                   (''sentiment'', PStr sentiment),
                                   (''confidence'', PFloat 0.8),
                                   (''source'', PStr ''email_data'')]]
                                 (extend_bucket ''topics'' topics entities1))))))
               | _ \<Rightarrow> Inl TypeError))
      | _ \<Rightarrow> Inr entities)"

definition email_thread_step :: "py_runtime \<Rightarrow> pyval \<Rightarrow> buckets \<Rightarrow> py_error + buckets" where
  "email_thread_step rt email_thread entities =
     (case email_thread of
        PDict d \<Rightarrow>
          bindE (py_iter (dict_get d ''messages'' (PList []))) (\<lambda>messages.
            for_each (email_message_step rt) messages entities)
      | _ \<Rightarrow> Inr entities)"

definition extract_from_emails :: "py_runtime \<Rightarrow> pyval \<Rightarrow> py_error + buckets" where
  "extract_from_emails rt emails =
     bindE (py_iter emails) (\<lambda>threads. for_each (email_thread_step rt) threads empty_entities)"

definition participant_step :: "pyval \<Rightarrow> buckets \<Rightarrow> py_error + buckets" where
  "participant_step participant entities =
     bindE (py_lower participant) (\<lambda>low.
       Inr (extend_bucket ''people''
              [[(''id'', PStr (str_replace CHR '' '' ''_'' low)),
                (''name'', participant),
                (''confidence'', PFloat 0.7),
                (''source'', PStr ''call_data'')]]
              entities))"

definition turn_text :: "pyval \<Rightarrow> py_error + pyval" where
  "turn_text turn = (case turn of PDict t \<Rightarrow> Inr (dict_get t ''text'' (PStr [])) | _ \<Rightarrow> Inl AttributeError)"

text \<open>\<^verbatim>\<open>' '.join(items)\<close>: every item has to be a string.\<close>

definition join_texts :: "pyval list \<Rightarrow> py_error + string" where
  "join_texts items =
     bindE (map_each (\<lambda>v. case v of PStr s \<Rightarrow> Inr s | _ \<Rightarrow> Inl TypeError) items) (\<lambda>ws.
       Inr (str_join '' '' ws))"

definition call_step :: "py_runtime \<Rightarrow> pyval \<Rightarrow> buckets \<Rightarrow> py_error + buckets" where
  "call_step rt call entities =
     (case call of
        PDict c \<Rightarrow>
          (let participants = dict_get c ''participants'' (PList [])
           in bindE (py_iter participants) (\<lambda>ps.
              bindE (for_each participant_step ps entities) (\<lambda>entities1.
              bindE (py_iter (dict_get c ''transcript'' (PList []))) (\<lambda>turns.
              bindE (map_each turn_text turns) (\<lambda>texts.
              bindE (join_texts texts) (\<lambda>transcript_text.
              bindE (extract_topics_from_text (PStr transcript_text)) (\<lambda>topics.
              bindE (py_truncate 300 (PStr transcript_text)) (\<lambda>summary.
              bindE (analyze_sentiment (PStr transcript_text)) (\<lambda>sentiment.
                Inr (extend_bucket ''events''
                       [[(''id'', dict_get c ''call_id''
                                    (PStr (''call_'' @ py_str rt (dict_get c ''date'' (PStr []))))),
                         (''type'', PStr ''call''),
                         (''date'', dict_get c ''date'' (PStr [])),
                         (''summary'', summary),
                         (''participants'', participants),
                         (''duration'', dict_get c ''duration'' (PStr [])),
                         (''sentiment'', PStr sentiment),
                         (''confidence'', PFloat 0.8),
                         (''source'', PStr ''call_data'')]]
                       (extend_bucket ''topics'' topics entities1)))))))))))
      | _ \<Rightarrow> Inr entities)"

definition extract_from_calls :: "py_runtime \<Rightarrow> pyval \<Rightarrow> py_error + buckets" where
  "extract_from_calls rt calls =
     bindE (py_iter calls) (\<lambda>items. for_each (call_step rt) items empty_entities)"

definition interaction_participant_step :: "pyval \<Rightarrow> buckets \<Rightarrow> py_error + buckets" where
  "interaction_participant_step participant entities =
     (case participant of
        PStr s \<Rightarrow>
          if str_contains ''@'' s
          then bindE (extract_person_from_email participant) (\<lambda>person.
                 case person of
                   Some p \<Rightarrow> Inr (extend_bucket ''people'' [p] entities)
                 | None \<Rightarrow> Inr entities)
          else Inr entities
      | _ \<Rightarrow> Inr entities)"

definition interaction_step :: "py_runtime \<Rightarrow> pyval \<Rightarrow> buckets \<Rightarrow> py_error + buckets" where
  "interaction_step rt interaction entities =
     (case interaction of
        PDict i \<Rightarrow>
          (let participants = dict_get i ''participants'' (PList [])
           in bindE (py_iter participants) (\<lambda>ps.
              bindE (for_each interaction_participant_step ps entities) (\<lambda>entities1.
              let summary = dict_get i ''summary'' (PStr [])
              in bindE (extract_topics_from_text summary) (\<lambda>topics.
                   Inr (extend_bucket ''events''
                          [[(''id'', PStr (''interaction_'' @ py_str rt (dict_get i ''date'' (PStr []))
                                           @ ''_'' @ py_str rt (dict_get i ''type'' (PStr [])))),
                            (''type'', dict_get i ''type'' (PStr ''interaction'')),
                            (''date'', dict_get i ''date'' (PStr [])),
                            (''summary'', summary),
                            (''participants'', participants),
                            (''sentiment'', dict_get i ''sentiment'' (PStr ''neutral'')),
                            (''confidence'', PFloat 0.7),
                            (''source'', PStr ''interaction_data'')]]
                          (extend_bucket ''topics'' topics entities1))))))
      | _ \<Rightarrow> Inr entities)"

definition extract_from_interactions :: "py_runtime \<Rightarrow> pyval \<Rightarrow> py_error + buckets" where
  "extract_from_interactions rt interactions =
     bindE (py_iter interactions) (\<lambda>items. for_each (interaction_step rt) items empty_entities)"

definition document_step :: "py_runtime \<Rightarrow> pyval \<Rightarrow> buckets \<Rightarrow> py_error + buckets" where
  "document_step rt doc entities =
     (case doc of
        PDict d \<Rightarrow>
          (let content = dict_get d ''content'' (PStr []);
               title = dict_get d ''title'' (PStr []);
               text_content = py_str rt title @ '' '' @ py_str rt content
           in bindE (extract_topics_from_text (PStr text_content)) (\<lambda>topics.
              bindE (py_truncate 200 content) (\<lambda>summary.
                Inr (extend_bucket ''events''
                       [[(''id'', PStr (''document_'' @ py_str rt (dict_get d ''id'' (PStr [])))),
                         (''type'', PStr ''document''),
                         (''date'', dict_get d ''created_date'' (PStr [])),
                         (''subject'', title),
                         (''summary'', summary),
                         (''confidence'', PFloat 0.6),
                         (''source'', PStr ''document_data'')]]
                       (extend_bucket ''topics'' topics entities)))))
      | _ \<Rightarrow> Inr entities)"

definition extract_from_documents :: "py_runtime \<Rightarrow> pyval \<Rightarrow> py_error + buckets" where
  "extract_from_documents rt documents =
     bindE (py_iter documents) (\<lambda>items. for_each (document_step rt) items empty_entities)"

subsection \<open>Relationships\<close>

definition works_for_step :: "pydict \<Rightarrow> pydict list \<Rightarrow> py_error + pydict list" where
  "works_for_step person relationships =
     (if truthy (dict_get person ''organization'' PNone)
      then bindE (dict_index person ''organization'') (\<lambda>organization.
           bindE (py_lower organization) (\<lambda>low.
           bindE (dict_index person ''id'') (\<lambda>person_id.
             Inr (relationships @
               [[(''source'', person_id),
                 (''target'', PStr (str_replace CHR '' '' ''_'' low)),
                 (''type'', PStr ''WORKS_FOR''),
                 (''strength'', PFloat 0.8),
                 (''context'', PStr ''employment'')]]))))
      else Inr relationships)"

definition participation_step :: "pydict \<Rightarrow> pydict list \<Rightarrow> py_error + pydict list" where
  "participation_step event relationships =
     bindE (py_iter (dict_get event ''participants'' (PList []))) (\<lambda>participants.
       for_each (\<lambda>participant rels.
           case participant of
             PStr s \<Rightarrow>
               bindE (dict_index event ''id'') (\<lambda>event_id.
               bindE (dict_index event ''type'') (\<lambda>event_type.
                 Inr (rels @
                   [[(''source'', PStr (address_id s)),
                     (''target'', event_id),
                     (''type'', PStr ''PARTICIPATED_IN''),
                     (''strength'', PFloat 0.9),
                     (''context'', event_type)]])))
           | _ \<Rightarrow> Inr rels)
         participants relationships)"

text \<open>
  \<^verbatim>\<open>self.topic_categories.get(category, [])\<close>: the key is hashed, so a list or a
  dictionary raises.
\<close>

definition category_keywords :: "pyval \<Rightarrow> py_error + string list" where
  "category_keywords category =
     (case category of
        PStr c \<Rightarrow> Inr (dict_get topic_categories c [])
      | PList _ \<Rightarrow> Inl TypeError
      | PDict _ \<Rightarrow> Inl TypeError
      | _ \<Rightarrow> Inr [])"

definition discussion_step :: "py_runtime \<Rightarrow> buckets \<Rightarrow> pydict \<Rightarrow> pydict list \<Rightarrow> py_error + pydict list" where
  "discussion_step rt entities event relationships =
     (let event_text = py_str rt (dict_get event ''subject'' (PStr []))
                       @ '' '' @ py_str rt (dict_get event ''summary'' (PStr []))
      in bindE (dict_index entities ''topics'') (\<lambda>topics.
           for_each (\<lambda>topic rels.
               bindE (category_keywords (dict_get topic ''category'' (PStr []))) (\<lambda>keywords.
                 if list_ex (\<lambda>keyword. str_contains keyword (str_lower event_text)) keywords
                 then bindE (dict_index event ''id'') (\<lambda>event_id.
                      bindE (dict_index topic ''id'') (\<lambda>topic_id.
                        Inr (rels @
                          [[(''source'', event_id),
                            (''target'', topic_id),
                            (''type'', PStr ''DISCUSSED''),
                            (''strength'', dict_get topic ''importance'' (PFloat 0.5)),
                            (''context'', PStr ''topic_discussion'')]])))
                 else Inr rels))
             topics relationships))"

definition extract_relationships :: "py_runtime \<Rightarrow> buckets \<Rightarrow> py_error + pydict list" where
  "extract_relationships rt entities =
     bindE (dict_index entities ''people'') (\<lambda>people.
     bindE (for_each works_for_step people []) (\<lambda>rels1.
     bindE (dict_index entities ''events'') (\<lambda>events.
     bindE (for_each participation_step events rels1) (\<lambda>rels2.
       for_each (discussion_step rt entities) events rels2))))"

subsection \<open>Deduplication\<close>

text \<open>
  Membership in a \<^verbatim>\<open>set\<close>: the value is hashed first (a list or a dictionary
  raises), then compared with \<^verbatim>\<open>==\<close>, under which \<^verbatim>\<open>True\<close>, \<^verbatim>\<open>1\<close> and
  \<^verbatim>\<open>1.0\<close> are one key.
\<close>

definition hashable :: "pyval \<Rightarrow> bool" where
  "hashable v = (case v of PList _ \<Rightarrow> False | PDict _ \<Rightarrow> False | _ \<Rightarrow> True)"

definition py_num :: "pyval \<Rightarrow> real option" where
  "py_num v =
     (case v of
        PBool b \<Rightarrow> Some (if b then 1 else 0)
      | PInt i \<Rightarrow> Some (real_of_int i)
      | PFloat r \<Rightarrow> Some r
      | _ \<Rightarrow> None)"

definition key_eq :: "pyval \<Rightarrow> pyval \<Rightarrow> bool" where
  "key_eq a b =
     (case py_num a of
        Some x \<Rightarrow> (case py_num b of Some y \<Rightarrow> x = y | None \<Rightarrow> False)
      | None \<Rightarrow> (case py_num b of Some y \<Rightarrow> False | None \<Rightarrow> a = b))"

fun unique_entities :: "pyval list \<Rightarrow> pydict list \<Rightarrow> py_error + pydict list" where
  "unique_entities seen_ids [] = Inr []"
| "unique_entities seen_ids (entity # rest) =
     (let entity_id = dict_get entity ''id'' (PStr [])
      in if \<not> hashable entity_id then Inl TypeError
         else if list_ex (key_eq entity_id) seen_ids then unique_entities seen_ids rest
         else bindE (unique_entities (seen_ids @ [entity_id]) rest) (\<lambda>unique.
                Inr (entity # unique)))"

text \<open>
  The loop over \<^verbatim>\<open>entities.keys()\<close> replaces every bucket but
  \<^verbatim>\<open>'relationships'\<close> by its unique entities, in key order.
\<close>

definition deduplicate_entities :: "buckets \<Rightarrow> py_error + buckets" where
  "deduplicate_entities entities =
     map_each (\<lambda>kv.
         if fst kv = ''relationships'' then Inr kv
         else bindE (unique_entities [] (snd kv)) (\<lambda>unique. Inr (fst kv, unique)))
       entities"

subsection \<open>The extraction operation\<close>

definition merge_source ::
  "pydict \<Rightarrow> string \<Rightarrow> (pyval \<Rightarrow> py_error + buckets) \<Rightarrow> buckets \<Rightarrow> py_error + buckets" where
  "merge_source account_data key extractor extracted =
     (if dict_has account_data key
      then bindE (dict_index account_data key) (\<lambda>raw.
           bindE (extractor raw) (\<lambda>found. Inr (merge_entities extracted found)))
      else Inr extracted)"

text \<open>
  The first part of \<^verbatim>\<open>extract_from_account_data\<close>: per-source extraction and the
  account's own organization, before relationships and deduplication.
\<close>

definition gather_entities :: "py_runtime \<Rightarrow> pydict \<Rightarrow> py_error + buckets" where
  "gather_entities rt account_data =
     (let extracted = [(''people'', []), (''organizations'', []), (''topics'', []),
                       (''events'', []), (''relationships'', [])];
          account_name = dict_get account_data ''accountName'' (PStr ''unknown'')
      in bindE (if dict_has account_data ''stakeholders''
                then bindE (dict_index account_data ''stakeholders'') (\<lambda>raw.
                     bindE (extract_people_from_stakeholders raw) (\<lambda>people.
                       Inr (extend_bucket ''people'' people extracted)))
                else Inr extracted) (\<lambda>e1.
         bindE (merge_source account_data ''emails'' (extract_from_emails rt) e1) (\<lambda>e2.
         bindE (merge_source account_data ''calls'' (extract_from_calls rt) e2) (\<lambda>e3.
         bindE (merge_source account_data ''interactions'' (extract_from_interactions rt) e3) (\<lambda>e4.
         bindE (merge_source account_data ''documents'' (extract_from_documents rt) e4) (\<lambda>e5.
         bindE (py_lower account_name) (\<lambda>low.
           Inr (extend_bucket ''organizations''
                  [[(''id'', PStr (str_replace CHR '' '' ''_'' low)),
                    (''name'', account_name),
                    (''type'', PStr ''primary_account''),
                    (''industry'', PStr ''technology''),
                    (''confidence'', PFloat 1.0)]]
                  e5))))))))"

definition extract_from_account_data :: "py_runtime \<Rightarrow> pydict \<Rightarrow> bool \<Rightarrow> py_error + buckets" where
  "extract_from_account_data rt account_data extract_rels =
     bindE (gather_entities rt account_data) (\<lambda>extracted.
     bindE (if extract_rels
            then bindE (extract_relationships rt extracted) (\<lambda>relationships.
                   Inr (AList.update ''relationships'' relationships extracted))
            else Inr extracted) (\<lambda>extracted1.
       deduplicate_entities extracted1))"

section \<open>Vector service\<close>

text \<open>
  The vector store is outside the repository.  \<open>ready\<close> is
  \<^verbatim>\<open>self.initialized and self.index\<close>; \<open>query_index\<close> stands for embedding the query
  and asking the index for the \<open>top_k\<close> nearest matches under an optional account
  filter, either of which may raise.
\<close>

record index_match =
  match_id :: string
  match_score :: real
  match_metadata :: pydict

record vector_store =
  ready :: bool
  query_index :: "string \<Rightarrow> nat \<Rightarrow> string option \<Rightarrow> py_error + index_match list"

definition mock_search_results :: "string \<Rightarrow> nat \<Rightarrow> pydict list" where
  "mock_search_results query top_k =
     map (\<lambda>i. [(''id'', PStr (''mock_doc_'' @ show_nat i)),
               (''score'', PFloat (0.8 - real i * 0.1)),
               (''metadata'', PDict [(''type'', PStr ''mock''), (''query'', PStr query)]),
               (''text'', PStr (''Mock document '' @ show_nat i @ '' related to: '' @ query))])
       [0..<min top_k 5]"

definition format_match :: "index_match \<Rightarrow> pydict" where
  "format_match m =
     [(''id'', PStr (match_id m)),
      (''score'', PFloat (match_score m)),
      (''metadata'', PDict (match_metadata m)),
      (''text'', dict_get (match_metadata m) ''text'' (PStr []))]"

definition semantic_search :: "vector_store \<Rightarrow> string \<Rightarrow> nat \<Rightarrow> string option \<Rightarrow> pydict list" where
  "semantic_search vs query top_k filters =
     (if \<not> ready vs then mock_search_results query top_k
      else (case query_index vs query top_k filters of
              Inr matches \<Rightarrow> map format_match matches
            | Inl e \<Rightarrow> mock_search_results query top_k))"

text \<open>
  \<^verbatim>\<open>sorted(xs, key=f, reverse=True)\<close>: descending and stable, elements with equal
  keys keeping their order.
\<close>

definition sorted_desc :: "('a \<Rightarrow> real) \<Rightarrow> 'a list \<Rightarrow> 'a list" where
  "sorted_desc f xs = sort_key (\<lambda>x. - f x) xs"

text \<open>A set of words as a list without duplicates; only its size and membership are used.\<close>

definition split_keywords :: "string \<Rightarrow> string list" where
  "split_keywords s = str_split_ws (str_lower s)"

definition context_keywords :: "string list \<Rightarrow> string list" where
  "context_keywords graph_context = remdups (concat (map split_keywords graph_context))"

text \<open>\<^verbatim>\<open>v * 0.7\<close> and the comparisons of a value with a number.\<close>

definition py_times :: "pyval \<Rightarrow> real \<Rightarrow> py_error + real" where
  "py_times v r = (case py_num v of Some x \<Rightarrow> Inr (x * r) | None \<Rightarrow> Inl TypeError)"

definition py_greater :: "pyval \<Rightarrow> real \<Rightarrow> py_error + bool" where
  "py_greater v r = (case py_num v of Some x \<Rightarrow> Inr (x > r) | None \<Rightarrow> Inl TypeError)"

definition py_at_most :: "pyval \<Rightarrow> real \<Rightarrow> py_error + bool" where
  "py_at_most v r = (case py_num v of Some x \<Rightarrow> Inr (x \<le> r) | None \<Rightarrow> Inl TypeError)"

definition rerank_step :: "string list \<Rightarrow> pydict \<Rightarrow> py_error + pydict" where
  "rerank_step ctx result =
     bindE (dict_index result ''text'') (\<lambda>text.
     bindE (py_lower text) (\<lambda>low.
       let text_keywords = remdups (str_split_ws low);
           context_overlap = length (filter (\<lambda>w. w \<in> set text_keywords) ctx)
       in bindE (dict_index result ''score'') (\<lambda>score.
          bindE (py_times score 0.7) (\<lambda>weighted.
            Inr (AList.update ''context_relevance'' (PInt (int context_overlap))
                  (AList.update ''hybrid_score''
                     (PFloat (weighted + (real context_overlap / real (max (length ctx) 1)) * 0.3))
                     result))))))"

definition number_field :: "string \<Rightarrow> pydict \<Rightarrow> real" where
  "number_field k d = (case py_num (dict_get d k PNone) of Some x \<Rightarrow> x | None \<Rightarrow> 0)"

text \<open>The body of the \<^verbatim>\<open>try\<close> in \<^verbatim>\<open>hybrid_search\<close> after the semantic search.\<close>

definition rerank :: "string list \<Rightarrow> pydict list \<Rightarrow> nat \<Rightarrow> py_error + pydict list" where
  "rerank graph_context semantic_results top_k =
     bindE (map_each (rerank_step (context_keywords graph_context)) semantic_results) (\<lambda>scored.
       Inr (take top_k (sorted_desc (number_field ''hybrid_score'') scored)))"

definition hybrid_search :: "vector_store \<Rightarrow> string \<Rightarrow> string list \<Rightarrow> nat \<Rightarrow> pydict list" where
  "hybrid_search vs query graph_context top_k =
     (case rerank graph_context (semantic_search vs query (top_k * 2) None) top_k of
        Inr hybrid_results \<Rightarrow> hybrid_results
      | Inl e \<Rightarrow> semantic_search vs query top_k None)"

section \<open>GraphRAG processor\<close>

text \<open>
  The graph store is outside the repository: \<open>find_related_entities\<close> takes the
  account, the seed id and the hop limit and returns the graph hits or raises.
\<close>

record graph_store =
  find_related_entities :: "string \<Rightarrow> pyval \<Rightarrow> nat \<Rightarrow> py_error + pydict list"

text \<open>\<^verbatim>\<open>s.add(v)\<close> on a set kept in insertion order.\<close>

definition set_add :: "pyval \<Rightarrow> pyval list \<Rightarrow> py_error + pyval list" where
  "set_add v s =
     (if \<not> hashable v then Inl TypeError
      else if list_ex (key_eq v) s then Inr s else Inr (s @ [v]))"

text \<open>
  \<^verbatim>\<open>if k in metadata: ... metadata[k]\<close>.  On a dictionary the value is read when the
  key is there; on a string or a list the test can succeed and the subscript then
  raises; anything else fails at the test.
\<close>

definition metadata_field :: "pyval \<Rightarrow> string \<Rightarrow> py_error + pyval option" where
  "metadata_field metadata k =
     (case metadata of
        PDict md \<Rightarrow> Inr (map_of md k)
      | _ \<Rightarrow> bindE (py_contains k metadata) (\<lambda>found. if found then Inl TypeError else Inr None))"

definition id_field_step :: "py_runtime \<Rightarrow> pyval \<Rightarrow> string \<Rightarrow> pyval list \<Rightarrow> py_error + pyval list" where
  "id_field_step rt metadata id_field entity_ids =
     bindE (metadata_field metadata id_field) (\<lambda>found.
       case found of
         Some v \<Rightarrow> set_add (PStr (py_str rt v)) entity_ids
       | None \<Rightarrow> Inr entity_ids)"

definition entity_context_step :: "py_runtime \<Rightarrow> pydict \<Rightarrow> pyval list \<Rightarrow> py_error + pyval list" where
  "entity_context_step rt result entity_ids =
     (let metadata = dict_get result ''metadata'' (PDict [])
      in bindE (metadata_field metadata ''participants'') (\<lambda>found.
         bindE (case found of
                  Some (PList participants) \<Rightarrow>
                    for_each (\<lambda>participant ids.
                        case participant of
                          PStr s \<Rightarrow> set_add (PStr (address_id s)) ids
                        | _ \<Rightarrow> Inr ids)
                      participants entity_ids
                | _ \<Rightarrow> Inr entity_ids) (\<lambda>ids1.
           for_each (id_field_step rt metadata) [''thread_id'', ''call_id'', ''document_id''] ids1)))"

definition extract_entity_context :: "py_runtime \<Rightarrow> pydict list \<Rightarrow> py_error + pyval list" where
  "extract_entity_context rt semantic_results =
     bindE (for_each (entity_context_step rt) semantic_results []) (\<lambda>entity_ids.
       Inr (set_order rt entity_ids))"

text \<open>\<^verbatim>\<open>sep.join(items)\<close>: every item has to be a string.\<close>

definition join_strs :: "string \<Rightarrow> pyval list \<Rightarrow> py_error + string" where
  "join_strs sep items =
     bindE (map_each (\<lambda>v. case v of PStr s \<Rightarrow> Inr s | _ \<Rightarrow> Inl TypeError) items) (\<lambda>ws.
       Inr (str_join sep ws))"

definition graph_text :: "py_runtime \<Rightarrow> pydict \<Rightarrow> py_error + string" where
  "graph_text rt e =
     bindE (dict_index e ''name'') (\<lambda>name.
     bindE (dict_index e ''labels'') (\<lambda>labels.
     bindE (py_iter labels) (\<lambda>items.
     bindE (join_strs '', '' items) (\<lambda>joined.
       Inr (py_str rt name @ '' ('' @ joined @ '')'')))))"

text \<open>
  Steps 1 to 4 of \<^verbatim>\<open>process_query\<close>, the retrieval stage: semantic search, entity
  seeds, graph traversal and hybrid search.  The result is the triple of semantic
  results, graph context and hybrid results.
\<close>

definition retrieve ::
  "py_runtime \<Rightarrow> vector_store \<Rightarrow> graph_store \<Rightarrow> string \<Rightarrow> string \<Rightarrow> nat \<Rightarrow> bool
     \<Rightarrow> py_error + (pydict list \<times> pydict list \<times> pydict list)" where
  "retrieve rt vs gs account_name query max_hops include_embeddings =
     (let semantic_results =
            semantic_search vs query 20 (if account_name \<noteq> ''all'' then Some account_name else None)
      in bindE (extract_entity_context rt semantic_results) (\<lambda>entity_context.
         bindE (for_each (\<lambda>entity_id graph_context.
                    bindE (find_related_entities gs account_name entity_id max_hops) (\<lambda>related_entities.
                      Inr (graph_context @ related_entities)))
                  entity_context []) (\<lambda>graph_context.
         bindE (if include_embeddings \<and> entity_context \<noteq> []
                then bindE (map_each (graph_text rt) graph_context) (\<lambda>graph_text_context.
                       Inr (hybrid_search vs query graph_text_context 15))
                else Inr (take 15 semantic_results)) (\<lambda>hybrid_results.
           Inr (semantic_results, graph_context, hybrid_results)))))"

text \<open>
  \<^verbatim>\<open>process_query\<close> wraps its whole body in \<^verbatim>\<open>try: ... except Exception: raise\<close>,
  so an exception of any step is the exception of the call.  \<open>synthesise\<close> stands for
  steps 5 and 6 (community detection and the analyzers) and the result record, which
  run on what retrieval returned.
\<close>

definition process_query ::
  "py_runtime \<Rightarrow> vector_store \<Rightarrow> graph_store
     \<Rightarrow> (pydict list \<times> pydict list \<times> pydict list \<Rightarrow> py_error + 'r)
     \<Rightarrow> string \<Rightarrow> string \<Rightarrow> nat \<Rightarrow> bool \<Rightarrow> py_error + 'r" where
  "process_query rt vs gs synthesise account_name query max_hops include_embeddings =
     bindE (retrieve rt vs gs account_name query max_hops include_embeddings) synthesise"

subsection \<open>Insights\<close>

text \<open>
  An insight is built by the analyzers as a dictionary literal with the keys
  \<^verbatim>\<open>type\<close>, \<^verbatim>\<open>confidence\<close>, \<^verbatim>\<open>evidence\<close>, \<^verbatim>\<open>relationships\<close> and
  \<^verbatim>\<open>summary\<close>; account analysis adds \<^verbatim>\<open>category\<close>.
\<close>

record insight =
  itype :: string
  confidence :: real
  evidence :: "pydict list"
  relationships :: "pydict list"
  summary :: string
  category :: "string option"

text \<open>
  The two nested loops of \<^verbatim>\<open>_analyze_cross_source_correlation\<close>, which collect the
  set \<^verbatim>\<open>semantic_entities\<close>.
\<close>

definition correlation_entity_step :: "string \<Rightarrow> pydict \<Rightarrow> pyval list \<Rightarrow> py_error + pyval list" where
  "correlation_entity_step text entity semantic_entities =
     bindE (py_lower (dict_get entity ''name'' (PStr []))) (\<lambda>name.
       if str_contains name text
       then bindE (dict_index entity ''name'') (\<lambda>v. set_add v semantic_entities)
       else Inr semantic_entities)"

definition correlation_result_step :: "pydict list \<Rightarrow> pydict \<Rightarrow> pyval list \<Rightarrow> py_error + pyval list" where
  "correlation_result_step graph_context result semantic_entities =
     bindE (py_lower (dict_get result ''text'' (PStr []))) (\<lambda>text.
       for_each (correlation_entity_step text) graph_context semantic_entities)"

definition correlated_entities :: "pydict list \<Rightarrow> pydict list \<Rightarrow> py_error + pyval list" where
  "correlated_entities semantic_results graph_context =
     for_each (correlation_result_step graph_context) semantic_results []"

definition analyze_cross_source_correlation ::
  "py_runtime \<Rightarrow> pydict list \<Rightarrow> pydict list \<Rightarrow> insight option" where
  "analyze_cross_source_correlation rt semantic_results graph_context =
     (case bindE (correlated_entities semantic_results graph_context) (\<lambda>semantic_entities.
             if length semantic_entities \<ge> 2
             then bindE (join_strs '', '' (take 3 (set_order rt semantic_entities))) (\<lambda>names.
                    Inr (Some
                      \<lparr>itype = ''cross_source_correlation'',
                       confidence = min (real (length semantic_entities) * 0.2) 1,
                       evidence = [[(''type'', PStr ''entity_mention''),
                                    (''entities'', PList (set_order rt semantic_entities)),
                                    (''correlation_strength'', PInt (int (length semantic_entities)))]],
                       relationships = [],
                       summary = ''Found '' @ show_nat (length semantic_entities)
                                 @ '' entities correlated across semantic search and graph data: ''
                                 @ names,
                       category = None\<rparr>))
             else Inr None) of
        Inr r \<Rightarrow> r
      | Inl e \<Rightarrow> None)"

text \<open>
  The loops of \<^verbatim>\<open>_analyze_semantic_structural_alignment\<close>: the inner one stops at
  the first graph entity whose name occurs in the text and whose distance is at most 2.
\<close>

fun aligned_with :: "string \<Rightarrow> pydict list \<Rightarrow> py_error + bool" where
  "aligned_with result_text [] = Inr False"
| "aligned_with result_text (entity # rest) =
     bindE (py_lower (dict_get entity ''name'' (PStr []))) (\<lambda>name.
       if str_contains name result_text
       then bindE (py_at_most (dict_get entity ''distance'' (PInt 999)) 2) (\<lambda>near.
              if near then Inr True else aligned_with result_text rest)
       else aligned_with result_text rest)"

definition alignment_step :: "pydict list \<Rightarrow> pydict \<Rightarrow> nat \<Rightarrow> py_error + nat" where
  "alignment_step graph_context result aligned_entities =
     (let result_score = dict_get result ''hybrid_score'' (dict_get result ''score'' (PInt 0))
      in bindE (py_greater result_score 0.7) (\<lambda>high.
           if high
           then bindE (py_lower (dict_get result ''text'' (PStr []))) (\<lambda>result_text.
                bindE (aligned_with result_text graph_context) (\<lambda>found.
                  Inr (if found then aligned_entities + 1 else aligned_entities)))
           else Inr aligned_entities))"

definition aligned_count :: "pydict list \<Rightarrow> pydict list \<Rightarrow> py_error + nat" where
  "aligned_count hybrid_results graph_context =
     for_each (alignment_step graph_context) (take 5 hybrid_results) 0"

definition analyze_semantic_structural_alignment :: "pydict list \<Rightarrow> pydict list \<Rightarrow> insight option" where
  "analyze_semantic_structural_alignment hybrid_results graph_context =
     (case aligned_count hybrid_results graph_context of
        Inr aligned_entities \<Rightarrow>
          if aligned_entities \<ge> 2
          then (let alignment_strength = real aligned_entities / real (min (length hybrid_results) 5)
                in Some
                  \<lparr>itype = ''semantic_structural_alignment'',
                   confidence = alignment_strength,
                   evidence = [[(''type'', PStr ''alignment_analysis''),
                                (''aligned_entities'', PInt (int aligned_entities)),
                                (''alignment_strength'', PFloat alignment_strength)]],
                   relationships = [],
                   summary = ''Strong alignment between semantic similarity and graph relationships found in ''
                             @ show_nat aligned_entities @ '' cases'',
                   category = None\<rparr>)
          else None
      | Inl e \<Rightarrow> None)"

subsection \<open>Ranking\<close>

definition insight_key :: "insight \<Rightarrow> string" where
  "insight_key i = itype i @ ''_'' @ take 50 (summary i)"

fun unique_insights :: "string list \<Rightarrow> insight list \<Rightarrow> insight list" where
  "unique_insights seen_types [] = []"
| "unique_insights seen_types (i # rest) =
     (if insight_key i \<in> set seen_types then unique_insights seen_types rest
      else i # unique_insights (seen_types @ [insight_key i]) rest)"

definition rank_and_deduplicate_insights :: "insight list \<Rightarrow> insight list" where
  "rank_and_deduplicate_insights insights = sorted_desc confidence (unique_insights [] insights)"

section \<open>Specification predicates\<close>

text \<open>A runtime for evaluating concrete inputs: sets are iterated in insertion order.\<close>

definition plain_runtime :: py_runtime where
  "plain_runtime = \<lparr>str_other = (\<lambda>v. []), set_order = (\<lambda>xs. xs)\<rparr>"

text \<open>The entity carries a confidence in the unit interval, and an id.\<close>

definition confidence_ok :: "pydict \<Rightarrow> bool" where
  "confidence_ok e = (case map_of e ''confidence'' of Some (PFloat c) \<Rightarrow> 0 \<le> c \<and> c \<le> 1 | _ \<Rightarrow> False)"

definition nonempty_id :: "pydict \<Rightarrow> bool" where
  "nonempty_id e = (case map_of e ''id'' of Some (PStr s) \<Rightarrow> s \<noteq> [] | _ \<Rightarrow> False)"

text \<open>
  The records whose id is not built around a fixed prefix or an address: people taken
  from stakeholder records, people and events taken from calls, and the account's own
  organization.
\<close>

definition id_exempt :: "pydict \<Rightarrow> bool" where
  "id_exempt e =
     (map_of e ''source'' = Some (PStr ''stakeholder_data'')
      \<or> map_of e ''source'' = Some (PStr ''call_data'')
      \<or> map_of e ''type'' = Some (PStr ''primary_account''))"

definition entity_ok :: "string \<Rightarrow> pydict \<Rightarrow> bool" where
  "entity_ok k e =
     (confidence_ok e \<and> dict_has e ''id'' \<and> (k = ''topics'' \<longrightarrow> nonempty_id e)
      \<and> (nonempty_id e \<or> id_exempt e))"

definition buckets_ok :: "buckets \<Rightarrow> bool" where
  "buckets_ok b = (\<forall>kv \<in> set b. fst kv \<noteq> ''relationships'' \<longrightarrow> list_all (entity_ok (fst kv)) (snd kv))"

text \<open>The id a deduplication pass reads, and when two entities count as the same.\<close>

definition entity_id :: "pydict \<Rightarrow> pyval" where
  "entity_id e = dict_get e ''id'' (PStr [])"

definition same_id :: "pydict \<Rightarrow> pydict \<Rightarrow> bool" where
  "same_id a b = key_eq (entity_id a) (entity_id b)"

text \<open>No two entities of the list have the same id.\<close>

definition distinct_ids :: "pydict list \<Rightarrow> bool" where
  "distinct_ids ys = sorted_wrt (\<lambda>a b. \<not> same_id a b) ys"

text \<open>
  The ranker as the specification words it: duplicates are removed by the pair of type
  and first 50 characters of the summary, the first occurrence kept.
\<close>

definition spec_key :: "insight \<Rightarrow> string \<times> string" where
  "spec_key i = (itype i, take 50 (summary i))"

fun first_occurrences :: "('a \<Rightarrow> 'k) \<Rightarrow> 'a list \<Rightarrow> 'a list" where
  "first_occurrences key [] = []"
| "first_occurrences key (x # xs) = x # first_occurrences key (filter (\<lambda>y. key y \<noteq> key x) xs)"

text \<open>The types the analyzers give their insights.\<close>

definition insight_types :: "string list" where
  "insight_types = [''cross_source_correlation'', ''community_influence'', ''temporal_evolution'',
                    ''multi_hop_reasoning'', ''semantic_structural_alignment'']"

definition descending :: "insight list \<Rightarrow> bool" where
  "descending xs = sorted_wrt (\<lambda>a b. confidence a \<ge> confidence b) xs"

section \<open>Example inputs\<close>

text \<open>An account whose only stakeholder record has no name.\<close>

definition nameless_stakeholder_account :: pydict where
  "nameless_stakeholder_account =
     [(''accountName'', PStr ''Acme''),
      (''emails'', PList []),
      (''calls'', PList []),
      (''stakeholders'', PList [PDict [(''email'', PStr ''jane@acme.com'')]]),
      (''documents'', PList []),
      (''interactions'', PList [])]"

text \<open>An account with an empty name and a call whose id and participant name are empty.\<close>

definition empty_names_account :: pydict where
  "empty_names_account =
     [(''accountName'', PStr []),
      (''emails'', PList []),
      (''calls'', PList [PDict [(''call_id'', PStr []), (''participants'', PList [PStr []]),
                                (''transcript'', PList [])]]),
      (''stakeholders'', PList []),
      (''documents'', PList []),
      (''interactions'', PList [])]"

text \<open>An account with one document.\<close>

definition document_account :: pydict where
  "document_account =
     [(''accountName'', PStr ''Acme''),
      (''emails'', PList []),
      (''calls'', PList []),
      (''stakeholders'', PList []),
      (''documents'', PList [PDict [(''id'', PStr ''d1''), (''title'', PStr ''Pricing''),
                                   (''content'', PStr ''budget'')]]),
      (''interactions'', PList [])]"

text \<open>A call whose participant list holds a number, and one whose transcript holds a string.\<close>

definition numeric_participant_account :: pydict where
  "numeric_participant_account =
     [(''accountName'', PStr ''Acme''),
      (''emails'', PList []),
      (''calls'', PList [PDict [(''call_id'', PStr ''c1''),
                                (''participants'', PList [PStr ''Jane Doe'', PInt 7]),
                                (''transcript'', PList [])]]),
      (''stakeholders'', PList []),
      (''documents'', PList []),
      (''interactions'', PList [])]"

definition string_turn_account :: pydict where
  "string_turn_account =
     [(''accountName'', PStr ''Acme''),
      (''emails'', PList []),
      (''calls'', PList [PDict [(''call_id'', PStr ''c1''),
                                (''participants'', PList [PStr ''Jane Doe'']),
                                (''transcript'', PList [PStr ''hello''])]]),
      (''stakeholders'', PList []),
      (''documents'', PList []),
      (''interactions'', PList [])]"

text \<open>An account that lists the same stakeholder twice.\<close>

definition jane :: pydict where
  "jane = [(''name'', PStr ''Jane Doe''), (''organization'', PStr ''Acme'')]"

definition duplicate_stakeholder_account :: pydict where
  "duplicate_stakeholder_account =
     [(''accountName'', PStr ''Acme''),
      (''emails'', PList []),
      (''calls'', PList []),
      (''stakeholders'', PList [PDict jane, PDict jane]),
      (''documents'', PList []),
      (''interactions'', PList [])]"

definition jane_person :: pydict where
  "jane_person =
     [(''id'', PStr ''jane_doe''), (''name'', PStr ''Jane Doe''), (''email'', PStr []),
      (''role'', PStr []), (''department'', PStr []), (''organization'', PStr ''Acme''),
      (''influence'', PStr ''medium''), (''confidence'', PFloat 0.9),
      (''source'', PStr ''stakeholder_data'')]"

definition acme_organization :: pydict where
  "acme_organization =
     [(''id'', PStr ''acme''), (''name'', PStr ''Acme''), (''type'', PStr ''primary_account''),
      (''industry'', PStr ''technology''), (''confidence'', PFloat 1)]"

definition jane_works_for_acme :: pydict where
  "jane_works_for_acme =
     [(''source'', PStr ''jane_doe''), (''target'', PStr ''acme''), (''type'', PStr ''WORKS_FOR''),
      (''strength'', PFloat 0.8), (''context'', PStr ''employment'')]"

text \<open>A later record of the same person, from a call.\<close>

definition jane_from_call :: pydict where
  "jane_from_call =
     [(''id'', PStr ''jane_doe''), (''name'', PStr ''Jane Doe''), (''confidence'', PFloat 0.7),
      (''source'', PStr ''call_data'')]"

definition duplicate_buckets :: buckets where
  "duplicate_buckets =
     [(''people'', [jane_person, jane_from_call]),
      (''relationships'', [jane_works_for_acme, jane_works_for_acme])]"

text \<open>
  Five candidate insights with confidences 0.9, 0.9, 0.6, 0.3 and 0.9; the first and the
  last have the same type and summary and differ in category.
\<close>

definition correlation_insight :: insight where
  "correlation_insight =
     \<lparr>itype = ''cross_source_correlation'', confidence = 0.9, evidence = [], relationships = [],
      summary = ''Found 5 entities'', category = Some ''risk_indicators''\<rparr>"

definition community_insight :: insight where
  "community_insight =
     \<lparr>itype = ''community_influence'', confidence = 0.9, evidence = [], relationships = [],
      summary = ''Community 1'', category = Some ''risk_indicators''\<rparr>"

definition temporal_insight :: insight where
  "temporal_insight =
     \<lparr>itype = ''temporal_evolution'', confidence = 0.6, evidence = [], relationships = [],
      summary = ''Identified 3 timestamped interactions'', category = Some ''risk_indicators''\<rparr>"

definition hop_insight :: insight where
  "hop_insight =
     \<lparr>itype = ''multi_hop_reasoning'', confidence = 0.3, evidence = [], relationships = [],
      summary = ''Multi-hop reasoning found 4 connected entities'', category = Some ''risk_indicators''\<rparr>"

definition repeated_insight :: insight where
  "repeated_insight =
     \<lparr>itype = ''cross_source_correlation'', confidence = 0.9, evidence = [], relationships = [],
      summary = ''Found 5 entities'', category = Some ''opportunity_signals''\<rparr>"

definition example_insights :: "insight list" where
  "example_insights =
     [correlation_insight, community_insight, temporal_insight, hop_insight, repeated_insight]"

text \<open>A vector store that answers every query with one document, "alice bob", scored 0.5.\<close>

definition alice_bob_match :: index_match where
  "alice_bob_match =
     \<lparr>match_id = ''d1'', match_score = 0.5, match_metadata = [(''text'', PStr ''alice bob'')]\<rparr>"

definition alice_bob_store :: vector_store where
  "alice_bob_store = \<lparr>ready = True, query_index = (\<lambda>query top_k filters. Inr [alice_bob_match])\<rparr>"

definition alice_bob_hit :: pydict where
  "alice_bob_hit =
     [(''id'', PStr ''d1''), (''score'', PFloat 0.5),
      (''metadata'', PDict [(''text'', PStr ''alice bob'')]),
      (''text'', PStr ''alice bob'')]"

definition alice_bob_hybrid_hit :: pydict where
  "alice_bob_hybrid_hit =
     [(''id'', PStr ''d1''), (''score'', PFloat 0.5),
      (''metadata'', PDict [(''text'', PStr ''alice bob'')]),
      (''text'', PStr ''alice bob''),
      (''hybrid_score'', PFloat 0.65),
      (''context_relevance'', PInt 2)]"

text \<open>
  A vector store whose document carries a call id, one whose document text is a number,
  one that is not initialised, and a graph store whose traversal raises.
\<close>

definition call_match :: index_match where
  "call_match =
     \<lparr>match_id = ''d1'', match_score = 0.5,
      match_metadata = [(''text'', PStr ''alice bob''), (''call_id'', PStr ''c1'')]\<rparr>"

definition call_store :: vector_store where
  "call_store = \<lparr>ready = True, query_index = (\<lambda>query top_k filters. Inr [call_match])\<rparr>"

definition numeric_text_match :: index_match where
  "numeric_text_match =
     \<lparr>match_id = ''d2'', match_score = 0.5, match_metadata = [(''text'', PInt 5)]\<rparr>"

definition numeric_text_store :: vector_store where
  "numeric_text_store = \<lparr>ready = True, query_index = (\<lambda>query top_k filters. Inr [numeric_text_match])\<rparr>"

definition offline_store :: vector_store where
  "offline_store = \<lparr>ready = False, query_index = (\<lambda>query top_k filters. Inl AttributeError)\<rparr>"

definition unreachable_graph :: graph_store where
  "unreachable_graph = \<lparr>find_related_entities = (\<lambda>account_name entity_id max_hops. Inl AttributeError)\<rparr>"

section \<open>Properties\<close>

lemma bindE_Inl [simp]: "bindE (Inl e) f = Inl e"
  by (simp add: bindE_def)

lemma bindE_Inr [simp]: "bindE (Inr x) f = f x"
  by (simp add: bindE_def)

lemma bindE_weak_cong: "m = m' \<Longrightarrow> bindE m f = bindE m' f"
  by simp

lemma bindE_eq_Inr: "bindE m f = Inr y \<longleftrightarrow> (\<exists>x. m = Inr x \<and> f x = Inr y)"
  by (cases m) auto

text \<open>
  The equations that evaluate the model on a concrete input.  They are used with the
  weak congruence rules for \<open>Let\<close> and \<open>bindE\<close>, so that a continuation is entered
  only with the value it is applied to.
\<close>

lemmas string_defs =
  str_lower_def lower_char_def upper_char_def ascii_upper_def ascii_lower_def ascii_digits_def
  is_upper_def is_lower_def is_alpha_def is_word_def is_space_def str_replace_def str_capitalize_def
  str_title_def str_isalpha_def str_split_ws_def str_join_def

lemmas python_defs =
  py_str_def dict_get_def dict_index_def dict_has_def py_iter_def py_lower_def py_len_def
  py_truncate_def py_contains_def is_dict_def is_str_def hashable_def py_num_def key_eq_def

lemmas extractor_defs =
  topic_categories_def at_boundary_def match_phrase_def findall_phrases_def category_topic_def
  custom_topic_def extract_topics_from_text_def positive_words_def negative_words_def
  analyze_sentiment_def address_id_def person_of_address_def extract_person_from_email_def
  stakeholder_step_def extract_people_from_stakeholders_def empty_entities_def extend_bucket_def
  merge_entities_def address_step_def email_message_step_def email_thread_step_def
  extract_from_emails_def participant_step_def turn_text_def join_texts_def call_step_def
  extract_from_calls_def interaction_participant_step_def interaction_step_def
  extract_from_interactions_def document_step_def extract_from_documents_def
  works_for_step_def participation_step_def category_keywords_def discussion_step_def
  extract_relationships_def deduplicate_entities_def merge_source_def gather_entities_def
  extract_from_account_data_def plain_runtime_def

lemmas spec_defs =
  confidence_ok_def nonempty_id_def id_exempt_def entity_ok_def entity_id_def same_id_def
  distinct_ids_def

lemmas eval_defs = string_defs python_defs extractor_defs spec_defs

lemmas example_defs =
  nameless_stakeholder_account_def empty_names_account_def document_account_def numeric_participant_account_def
  string_turn_account_def jane_def duplicate_stakeholder_account_def jane_person_def
  acme_organization_def jane_works_for_acme_def jane_from_call_def duplicate_buckets_def

subsection \<open>Loops and dictionaries\<close>

lemma for_each_invariant:
  assumes "for_each f xs s = Inr s'" and "P s"
    and "\<And>x t t'. x \<in> set xs \<Longrightarrow> P t \<Longrightarrow> f x t = Inr t' \<Longrightarrow> P t'"
  shows "P s'"
  using assms
proof (induction xs arbitrary: s)
  case Nil
  then show ?case by simp
next
  case (Cons x xs)
  from Cons.prems(1) obtain t where t: "f x s = Inr t" "for_each f xs t = Inr s'"
    by (auto simp: bindE_eq_Inr)
  have "P t" using Cons.prems(2,3) t(1) by auto
  then show ?case using Cons.IH[OF t(2)] Cons.prems(3) by auto
qed

lemma map_each_Inr:
  "map_each f xs = Inr ys \<Longrightarrow> list_all2 (\<lambda>x y. f x = Inr y) xs ys"
  by (induction xs arbitrary: ys) (auto simp: bindE_eq_Inr)

lemma set_alist_update:
  "kv \<in> set (AList.update k v al) \<Longrightarrow> kv = (k, v) \<or> kv \<in> set al"
  by (induction al) (auto split: if_splits)

lemma dict_get_cases:
  "dict_get b k [] = [] \<or> (k, dict_get b k []) \<in> set b"
  by (auto simp: dict_get_def split: option.splits dest: map_of_SomeD)

lemma buckets_ok_get:
  "buckets_ok b \<Longrightarrow> k \<noteq> ''relationships'' \<Longrightarrow> list_all (entity_ok k) (dict_get b k [])"
  using dict_get_cases[of b k] by (auto simp: buckets_ok_def)

lemma buckets_ok_update:
  "buckets_ok b \<Longrightarrow> (k \<noteq> ''relationships'' \<Longrightarrow> list_all (entity_ok k) v) \<Longrightarrow> buckets_ok (AList.update k v b)"
  unfolding buckets_ok_def by (auto dest!: set_alist_update)

lemma buckets_ok_extend:
  "buckets_ok b \<Longrightarrow> (k \<noteq> ''relationships'' \<Longrightarrow> list_all (entity_ok k) xs) \<Longrightarrow> buckets_ok (extend_bucket k xs b)"
  unfolding extend_bucket_def
  by (rule buckets_ok_update) (auto dest: buckets_ok_get)

lemma buckets_ok_merge:
  "buckets_ok t \<Longrightarrow> buckets_ok s \<Longrightarrow> buckets_ok (merge_entities t s)"
  unfolding merge_entities_def
proof (induction s arbitrary: t)
  case Nil
  then show ?case by simp
next
  case (Cons kv s)
  have "buckets_ok (extend_bucket (fst kv) (snd kv) t)"
    using Cons.prems by (intro buckets_ok_extend) (auto simp: buckets_ok_def)
  moreover have "buckets_ok s" using Cons.prems(2) by (simp add: buckets_ok_def)
  ultimately show ?case using Cons.IH by simp
qed

lemma dict_get_update_same: "dict_get (AList.update k v al) k d = v"
  by (simp add: dict_get_def update_conv')

lemma dict_get_update_other: "k' \<noteq> k \<Longrightarrow> dict_get (AList.update k v al) k' d = dict_get al k' d"
  by (simp add: dict_get_def update_conv')

lemma list_all2_pick:
  "list_all2 P xs ys \<Longrightarrow> y \<in> set ys \<Longrightarrow> \<exists>x \<in> set xs. P x y"
  by (induction rule: list_all2_induct) auto

lemma map_each_fixed: "\<forall>y \<in> set ys. f y = Inr y \<Longrightarrow> map_each f ys = Inr ys"
  by (induction ys) auto

lemma map_each_total: "\<forall>x \<in> set xs. \<exists>y. f x = Inr y \<Longrightarrow> \<exists>ys. map_each f xs = Inr ys"
proof (induction xs)
  case Nil
  then show ?case by simp
next
  case (Cons x xs)
  then obtain y ys where "f x = Inr y" "map_each f xs = Inr ys" by auto
  then show ?case by simp
qed

subsection \<open>Deduplication\<close>

lemma unique_entities_subseq:
  "unique_entities S xs = Inr ys \<Longrightarrow> subseq ys xs"
  by (induction xs arbitrary: S ys) (auto simp: Let_def bindE_eq_Inr split: if_splits)

lemma dedup_rel:
  "deduplicate_entities X = Inr Y \<Longrightarrow>
     list_all2 (\<lambda>kv kv'. fst kv' = fst kv \<and>
        (if fst kv = ''relationships'' then snd kv' = snd kv
         else unique_entities [] (snd kv) = Inr (snd kv'))) X Y"
  unfolding deduplicate_entities_def
  by (drule map_each_Inr) (auto simp: bindE_eq_Inr elim!: list_all2_mono split: if_splits)

lemma key_eq_refl: "key_eq a a"
  by (auto simp: key_eq_def split: option.splits)

lemma key_eq_sym: "key_eq a b \<Longrightarrow> key_eq b a"
  by (auto simp: key_eq_def split: option.splits)

lemma key_eq_trans: "key_eq a b \<Longrightarrow> key_eq b c \<Longrightarrow> key_eq a c"
  by (auto simp: key_eq_def split: option.splits)

lemma seen_cong: "key_eq a b \<Longrightarrow> list_ex (key_eq a) S = list_ex (key_eq b) S"
  by (auto simp: list_ex_iff intro: key_eq_trans key_eq_sym)

lemma unique_entities_fresh:
  "unique_entities S xs = Inr ys \<Longrightarrow>
     (\<forall>y \<in> set ys. hashable (entity_id y) \<and> \<not> list_ex (key_eq (entity_id y)) S) \<and> distinct_ids ys"
proof (induction xs arbitrary: S ys)
  case Nil
  then show ?case by (simp add: distinct_ids_def)
next
  case (Cons e xs)
  show ?case
  proof (cases "list_ex (key_eq (entity_id e)) S")
    case True
    with Cons.prems have "unique_entities S xs = Inr ys"
      by (auto simp: Let_def entity_id_def split: if_splits)
    then show ?thesis by (rule Cons.IH)
  next
    case False
    with Cons.prems obtain ys' where h: "hashable (entity_id e)"
      and ys': "unique_entities (S @ [entity_id e]) xs = Inr ys'" and ys: "ys = e # ys'"
      by (auto simp: Let_def entity_id_def bindE_eq_Inr split: if_splits)
    from Cons.IH[OF ys'] have ih: "\<forall>y \<in> set ys'. hashable (entity_id y) \<and> \<not> list_ex (key_eq (entity_id y)) (S @ [entity_id e])"
      and d: "distinct_ids ys'" by auto
    have "\<forall>y \<in> set ys'. \<not> same_id e y"
      using ih by (auto simp: same_id_def dest: key_eq_sym)
    then show ?thesis using ih d h False by (auto simp: ys distinct_ids_def)
  qed
qed

lemma unique_entities_fixed:
  "\<forall>y \<in> set ys. hashable (entity_id y) \<and> \<not> list_ex (key_eq (entity_id y)) S \<Longrightarrow> distinct_ids ys
    \<Longrightarrow> unique_entities S ys = Inr ys"
proof (induction ys arbitrary: S)
  case Nil
  then show ?case by simp
next
  case (Cons e ys)
  have "\<forall>y \<in> set ys. \<not> key_eq (entity_id y) (entity_id e)"
    using Cons.prems(2) by (auto simp: distinct_ids_def same_id_def dest: key_eq_sym)
  then have "unique_entities (S @ [entity_id e]) ys = Inr ys"
    using Cons.prems by (intro Cons.IH) (auto simp: distinct_ids_def)
  then show ?case using Cons.prems(1) by (simp add: Let_def entity_id_def)
qed

lemma unique_entities_idem:
  "unique_entities [] xs = Inr ys \<Longrightarrow> unique_entities [] ys = Inr ys"
  by (drule unique_entities_fresh) (auto intro: unique_entities_fixed)

lemma unique_entities_first_seen:
  "unique_entities S xs = Inr ys \<Longrightarrow> x \<in> set xs \<Longrightarrow> \<not> list_ex (key_eq (entity_id x)) S
    \<Longrightarrow> find (\<lambda>y. same_id y x) ys = find (\<lambda>y. same_id y x) xs"
proof (induction xs arbitrary: S ys)
  case Nil
  then show ?case by simp
next
  case (Cons e xs)
  show ?case
  proof (cases "list_ex (key_eq (entity_id e)) S")
    case True
    with Cons.prems(1) have ys: "unique_entities S xs = Inr ys"
      by (auto simp: Let_def entity_id_def split: if_splits)
    have ne: "\<not> same_id e x"
      using True Cons.prems(3) seen_cong[of "entity_id e" "entity_id x" S] by (auto simp: same_id_def)
    then have "x \<in> set xs" using Cons.prems(2) by (auto simp: same_id_def key_eq_refl)
    then show ?thesis using Cons.IH[OF ys _ Cons.prems(3)] ne by simp
  next
    case False
    with Cons.prems(1) obtain ys' where
      ys': "unique_entities (S @ [entity_id e]) xs = Inr ys'" and ys: "ys = e # ys'"
      by (auto simp: Let_def entity_id_def bindE_eq_Inr split: if_splits)
    show ?thesis
    proof (cases "same_id e x")
      case True
      then show ?thesis by (simp add: ys)
    next
      case ne: False
      then have "x \<in> set xs" using Cons.prems(2) by (auto simp: same_id_def key_eq_refl)
      moreover have "\<not> list_ex (key_eq (entity_id x)) (S @ [entity_id e])"
        using Cons.prems(3) ne by (auto simp: same_id_def dest: key_eq_sym)
      ultimately show ?thesis using Cons.IH[OF ys'] ne by (simp add: ys)
    qed
  qed
qed

lemma unique_entities_total:
  "\<forall>x \<in> set xs. hashable (entity_id x) \<Longrightarrow> \<exists>ys. unique_entities S xs = Inr ys"
proof (induction xs arbitrary: S)
  case Nil
  then show ?case by simp
next
  case (Cons e xs)
  then obtain ys1 ys2 where "unique_entities S xs = Inr ys1" "unique_entities (S @ [entity_id e]) xs = Inr ys2"
    by (metis list.set_intros(2))
  then show ?case using Cons.prems by (auto simp: Let_def entity_id_def)
qed

lemma dedup_idem:
  assumes "deduplicate_entities X = Inr Y"
  shows "deduplicate_entities Y = Inr Y"
  unfolding deduplicate_entities_def
proof (rule map_each_fixed, rule ballI)
  fix kv' assume "kv' \<in> set Y"
  with dedup_rel[OF assms] obtain kv where
    "fst kv' = fst kv" "(if fst kv = ''relationships'' then snd kv' = snd kv
         else unique_entities [] (snd kv) = Inr (snd kv'))"
    by (auto dest!: list_all2_pick)
  then show "(if fst kv' = ''relationships'' then Inr kv'
         else bindE (unique_entities [] (snd kv')) (\<lambda>unique. Inr (fst kv', unique))) = Inr kv'"
    using unique_entities_idem[of "snd kv" "snd kv'"] by (cases kv') auto
qed

lemma dedup_map_of:
  assumes "deduplicate_entities X = Inr Y"
  shows "(case map_of X k of
            None \<Rightarrow> map_of Y k = None
          | Some v \<Rightarrow> if k = ''relationships'' then map_of Y k = Some v
                      else \<exists>u. unique_entities [] v = Inr u \<and> map_of Y k = Some u)"
  using dedup_rel[OF assms]
  by (induction rule: list_all2_induct) (auto split: option.splits)

lemma dedup_bucket:
  assumes "deduplicate_entities X = Inr Y" and "k \<noteq> ''relationships''"
  shows "unique_entities [] (dict_get X k []) = Inr (dict_get Y k [])"
  using dedup_map_of[OF assms(1), of k] assms(2)
  by (auto simp: dict_get_def split: option.splits)

lemma dedup_relationships:
  assumes "deduplicate_entities X = Inr Y"
  shows "dict_get Y ''relationships'' [] = dict_get X ''relationships'' []"
  using dedup_map_of[OF assms(1), of "''relationships''"]
  by (auto simp: dict_get_def split: option.splits)

lemma dedup_keys:
  assumes "deduplicate_entities X = Inr Y"
  shows "map fst Y = map fst X"
  using dedup_rel[OF assms]
  by (induction rule: list_all2_induct) auto

lemma dedup_total:
  assumes "\<forall>kv \<in> set X. fst kv \<noteq> ''relationships'' \<longrightarrow> (\<forall>e \<in> set (snd kv). hashable (entity_id e))"
  shows "\<exists>Y. deduplicate_entities X = Inr Y"
  unfolding deduplicate_entities_def
proof (rule map_each_total, rule ballI)
  fix kv assume kv: "kv \<in> set X"
  show "\<exists>y. (if fst kv = ''relationships'' then Inr kv
         else bindE (unique_entities [] (snd kv)) (\<lambda>unique. Inr (fst kv, unique))) = Inr y"
  proof (cases "fst kv = ''relationships''")
    case True
    then show ?thesis by simp
  next
    case False
    with assms kv obtain ys where "unique_entities [] (snd kv) = Inr ys"
      using unique_entities_total[of "snd kv" "[]"] by auto
    then show ?thesis using False by simp
  qed
qed

text \<open>
  C6.  Deduplication is idempotent (also when it raises, which it does exactly when an
  id is unhashable), keeps the keys and the relationships list, never lengthens a
  bucket, and in every entity bucket keeps a subsequence with pairwise distinct ids in
  which the record found for an id is the first record the input has for that id.  It
  returns whenever every id is hashable.
\<close>

theorem deduplicate_entities_properties:
  "bindE (deduplicate_entities X) deduplicate_entities = deduplicate_entities X
   \<and> (\<forall>Y. deduplicate_entities X = Inr Y \<longrightarrow>
         map fst Y = map fst X
       \<and> dict_get Y ''relationships'' [] = dict_get X ''relationships'' []
       \<and> (\<forall>k. length (dict_get Y k []) \<le> length (dict_get X k []))
       \<and> (\<forall>k. k \<noteq> ''relationships'' \<longrightarrow>
             subseq (dict_get Y k []) (dict_get X k [])
           \<and> distinct_ids (dict_get Y k [])
           \<and> (\<forall>x \<in> set (dict_get X k []).
                 find (\<lambda>y. same_id y x) (dict_get Y k []) = find (\<lambda>y. same_id y x) (dict_get X k []))))
   \<and> ((\<forall>kv \<in> set X. fst kv \<noteq> ''relationships'' \<longrightarrow> (\<forall>e \<in> set (snd kv). hashable (entity_id e)))
        \<longrightarrow> (\<exists>Y. deduplicate_entities X = Inr Y))"
proof (intro conjI allI impI ballI)
  show "bindE (deduplicate_entities X) deduplicate_entities = deduplicate_entities X"
    by (cases "deduplicate_entities X") (auto dest: dedup_idem)
next
  fix Y assume "deduplicate_entities X = Inr Y"
  then show "map fst Y = map fst X" by (rule dedup_keys)
next
  fix Y assume "deduplicate_entities X = Inr Y"
  then show "dict_get Y ''relationships'' [] = dict_get X ''relationships'' []"
    by (rule dedup_relationships)
next
  fix Y k assume Y: "deduplicate_entities X = Inr Y"
  show "length (dict_get Y k []) \<le> length (dict_get X k [])"
  proof (cases "k = ''relationships''")
    case True
    then show ?thesis using dedup_relationships[OF Y] by simp
  next
    case False
    then show ?thesis
      using dedup_bucket[OF Y False] by (auto dest!: unique_entities_subseq list_emb_length)
  qed
next
  fix Y k assume "deduplicate_entities X = Inr Y" "k \<noteq> ''relationships''"
  then show "subseq (dict_get Y k []) (dict_get X k [])"
    by (auto dest!: dedup_bucket unique_entities_subseq)
next
  fix Y k assume "deduplicate_entities X = Inr Y" "k \<noteq> ''relationships''"
  then show "distinct_ids (dict_get Y k [])"
    by (auto dest!: dedup_bucket unique_entities_fresh)
next
  fix Y k x assume "deduplicate_entities X = Inr Y" "k \<noteq> ''relationships''" "x \<in> set (dict_get X k [])"
  then show "find (\<lambda>y. same_id y x) (dict_get Y k []) = find (\<lambda>y. same_id y x) (dict_get X k [])"
    by (auto dest!: dedup_bucket intro: unique_entities_first_seen)
next
  assume "\<forall>kv \<in> set X. fst kv \<noteq> ''relationships'' \<longrightarrow> (\<forall>e \<in> set (snd kv). hashable (entity_id e))"
  then show "\<exists>Y. deduplicate_entities X = Inr Y" by (rule dedup_total)
qed

text \<open>
  Witness for C6: two records of one person and a repeated relationship.  The first
  record survives, the relationships are untouched.
\<close>

theorem deduplicate_entities_properties_witness:
  "deduplicate_entities duplicate_buckets =
     Inr [(''people'', [jane_person]),
          (''relationships'', [jane_works_for_acme, jane_works_for_acme])]
   \<and> bindE (deduplicate_entities duplicate_buckets) deduplicate_entities =
     Inr [(''people'', [jane_person]),
          (''relationships'', [jane_works_for_acme, jane_works_for_acme])]
   \<and> length [jane_person] \<le> length [jane_person, jane_from_call]
   \<and> subseq [jane_person] [jane_person, jane_from_call]
   \<and> distinct_ids [jane_person]
   \<and> find (\<lambda>y. same_id y jane_from_call) [jane_person] = Some jane_person"
proof -
  define Y :: buckets where
    "Y = [(''people'', [jane_person]), (''relationships'', [jane_works_for_acme, jane_works_for_acme])]"
  have run: "deduplicate_entities duplicate_buckets = Inr Y"
    unfolding Y_def by (simp add: eval_defs example_defs Let_def cong: let_weak_cong bindE_weak_cong)
  have hashable_ids:
    "\<forall>kv \<in> set duplicate_buckets. fst kv \<noteq> ''relationships''
        \<longrightarrow> (\<forall>e \<in> set (snd kv). hashable (entity_id e))"
    by (simp add: duplicate_buckets_def jane_person_def jane_from_call_def entity_id_def
        dict_get_def hashable_def)
  have people: "''people'' \<noteq> ''relationships''"
    by simp
  have member: "jane_from_call \<in> set (dict_get duplicate_buckets ''people'' [])"
    by (simp add: duplicate_buckets_def dict_get_def)
  have X: "dict_get duplicate_buckets ''people'' [] = [jane_person, jane_from_call]"
    by (simp add: duplicate_buckets_def dict_get_def)
  have Y: "dict_get Y ''people'' [] = [jane_person]"
    by (simp add: Y_def dict_get_def)
  note P = deduplicate_entities_properties[of duplicate_buckets]
  have idem: "bindE (deduplicate_entities duplicate_buckets) deduplicate_entities = Inr Y"
    using P[THEN conjunct1] run by simp
  have returns: "\<exists>Z. deduplicate_entities duplicate_buckets = Inr Z"
    using P[THEN conjunct2, THEN conjunct2] hashable_ids by (rule mp)
  note kept = P[THEN conjunct2, THEN conjunct1, rule_format, OF run]
  note sizes = kept[THEN conjunct2, THEN conjunct2, THEN conjunct1, rule_format]
  note entities = kept[THEN conjunct2, THEN conjunct2, THEN conjunct2, rule_format, OF people]
  have len: "length (dict_get Y ''people'' []) \<le> length (dict_get duplicate_buckets ''people'' [])"
    by (rule sizes)
  have sub: "subseq (dict_get Y ''people'' []) (dict_get duplicate_buckets ''people'' [])"
    by (rule entities[THEN conjunct1])
  have dist: "distinct_ids (dict_get Y ''people'' [])"
    by (rule entities[THEN conjunct2, THEN conjunct1])
  have first: "find (\<lambda>y. same_id y jane_from_call) (dict_get Y ''people'' [])
                = find (\<lambda>y. same_id y jane_from_call) (dict_get duplicate_buckets ''people'' [])"
    by (rule entities[THEN conjunct2, THEN conjunct2, rule_format, OF member])
  have found: "find (\<lambda>y. same_id y jane_from_call) [jane_person, jane_from_call] = Some jane_person"
    by (simp add: same_id_def entity_id_def key_eq_def py_num_def dict_get_def
        jane_person_def jane_from_call_def)
  show ?thesis
    using run idem len[unfolded X Y] sub[unfolded X Y] dist[unfolded Y] first[unfolded X Y found]
    unfolding Y_def by simp
qed

subsection \<open>Entity extraction\<close>

lemma category_topic_ok: "list_all (entity_ok ''topics'') (category_topic t ck)"
proof -
  have "0 \<le> min (real m / real n) 1" for m n :: nat
    by simp
  then show ?thesis
    by (auto simp: category_topic_def Let_def entity_ok_def confidence_ok_def nonempty_id_def dict_has_def id_exempt_def
        intro: add_nonneg_nonneg)
qed

lemma custom_topic_ok: "list_all (entity_ok ''topics'') (custom_topic p)"
  by (auto simp: custom_topic_def entity_ok_def confidence_ok_def nonempty_id_def dict_has_def id_exempt_def)

lemma topics_ok:
  "extract_topics_from_text t = Inr ts \<Longrightarrow> list_all (entity_ok ''topics'') ts"
  by (auto simp: extract_topics_from_text_def bindE_eq_Inr list_all_iff
      category_topic_ok[unfolded list_all_iff] custom_topic_ok[unfolded list_all_iff]
      split: if_splits)


lemma str_replace_nonempty: "s \<noteq> [] \<Longrightarrow> new \<noteq> [] \<Longrightarrow> str_replace c new s \<noteq> []"
  by (cases s) (simp_all add: str_replace_def)

lemma address_id_nonempty: "s \<noteq> [] \<Longrightarrow> address_id s \<noteq> []"
  unfolding address_id_def by (intro str_replace_nonempty) simp_all

lemma person_from_email_ok:
  assumes "extract_person_from_email a = Inr (Some p)"
  shows "entity_ok ''people'' p"
proof -
  from assms obtain s where a: "a = PStr s" and s: "s \<noteq> []"
    by (cases a) (auto simp: extract_person_from_email_def bindE_eq_Inr py_contains_def
        split: if_splits)
  from assms a obtain l d where "person_of_address s l d = Inr p"
    by (auto simp: extract_person_from_email_def bindE_eq_Inr split: if_splits list.splits)
  then show ?thesis
    using address_id_nonempty[OF s]
    by (auto simp: person_of_address_def Let_def entity_ok_def confidence_ok_def dict_has_def
        nonempty_id_def split: list.splits)
qed

lemma add_person_ok:
  "extract_person_from_email a = Inr person \<Longrightarrow> buckets_ok b
    \<Longrightarrow> buckets_ok (case person of Some p \<Rightarrow> extend_bucket ''people'' [p] b | None \<Rightarrow> b)"
  by (cases person) (auto intro!: buckets_ok_extend dest: person_from_email_ok)

lemma address_step_ok:
  assumes "address_step a b = Inr b'" and "buckets_ok b"
  shows "buckets_ok b'"
proof (cases "truthy a \<and> py_contains ''@'' a = Inr True")
  case True
  with assms(1) obtain person where
    "extract_person_from_email a = Inr person"
    "b' = (case person of Some p \<Rightarrow> extend_bucket ''people'' [p] b | None \<Rightarrow> b)"
    by (auto simp: address_step_def bindE_eq_Inr split: option.splits)
  then show ?thesis using add_person_ok assms(2) by simp
next
  case False
  with assms have "b' = b"
    by (auto simp: address_step_def bindE_eq_Inr split: if_splits)
  then show ?thesis using assms(2) by simp
qed

lemma email_message_step_ok:
  assumes "email_message_step rt m b = Inr b'" and "buckets_ok b"
  shows "buckets_ok b'"
proof (cases m)
  case (PDict d)
  define rec where "rec = (if is_str (dict_get d ''to'' (PList [])) then PList [dict_get d ''to'' (PList [])] else dict_get d ''to'' (PList []))"
  from assms(1) PDict obtain rs where rs: "rec = PList rs"
    by (cases rec) (auto simp: email_message_step_def Let_def rec_def)
  from assms(1) PDict rs obtain b1 topics summary sentiment ev where
    b1: "for_each address_step (dict_get d ''from'' (PStr []) # rs) b = Inr b1"
    and tp: "extract_topics_from_text (PStr (py_str rt (dict_get d ''subject'' (PStr [])) @ '' '' @ py_str rt (dict_get d ''body'' (PStr [])))) = Inr topics"
    and b': "b' = extend_bucket ''events'' [ev] (extend_bucket ''topics'' topics b1)"
    and ev: "entity_ok ''events'' ev"
    by (auto simp: email_message_step_def Let_def rec_def[symmetric] bindE_eq_Inr entity_ok_def confidence_ok_def dict_has_def nonempty_id_def id_exempt_def)
  have "buckets_ok b1"
    using b1 assms(2) by (rule for_each_invariant) (rule address_step_ok)
  then show ?thesis
    unfolding b' using ev topics_ok[OF tp] by (intro buckets_ok_extend) auto
qed (use assms in \<open>auto simp: email_message_step_def\<close>)

lemma email_thread_step_ok:
  assumes "email_thread_step rt t b = Inr b'" and "buckets_ok b"
  shows "buckets_ok b'"
proof (cases t)
  case (PDict d)
  with assms(1) obtain ms where "for_each (email_message_step rt) ms b = Inr b'"
    by (auto simp: email_thread_step_def bindE_eq_Inr)
  then show ?thesis using assms(2) by (rule for_each_invariant) (rule email_message_step_ok)
qed (use assms in \<open>auto simp: email_thread_step_def\<close>)

lemma empty_entities_ok: "buckets_ok empty_entities"
  by (simp add: buckets_ok_def empty_entities_def)

lemma extract_from_emails_ok:
  "extract_from_emails rt v = Inr b \<Longrightarrow> buckets_ok b"
  unfolding extract_from_emails_def bindE_eq_Inr
  by (auto elim!: for_each_invariant[where P = buckets_ok] intro: empty_entities_ok email_thread_step_ok)

lemma participant_step_ok:
  "participant_step p b = Inr b' \<Longrightarrow> buckets_ok b \<Longrightarrow> buckets_ok b'"
  by (auto simp: participant_step_def bindE_eq_Inr entity_ok_def confidence_ok_def dict_has_def nonempty_id_def id_exempt_def
      intro!: buckets_ok_extend)

lemma call_step_ok:
  assumes "call_step rt c b = Inr b'" and "buckets_ok b"
  shows "buckets_ok b'"
proof (cases c)
  case (PDict d)
  with assms(1) obtain ps b1 tt topics ev where
    b1: "for_each participant_step ps b = Inr b1"
    and tp: "extract_topics_from_text (PStr tt) = Inr topics"
    and b': "b' = extend_bucket ''events'' [ev] (extend_bucket ''topics'' topics b1)"
    and ev: "entity_ok ''events'' ev"
    by (auto simp: call_step_def Let_def bindE_eq_Inr entity_ok_def confidence_ok_def dict_has_def nonempty_id_def id_exempt_def)
  have "buckets_ok b1"
    using b1 assms(2) by (rule for_each_invariant) (rule participant_step_ok)
  then show ?thesis
    unfolding b' using ev topics_ok[OF tp] by (intro buckets_ok_extend) auto
qed (use assms in \<open>auto simp: call_step_def\<close>)

lemma extract_from_calls_ok:
  "extract_from_calls rt v = Inr b \<Longrightarrow> buckets_ok b"
  unfolding extract_from_calls_def bindE_eq_Inr
  by (auto elim!: for_each_invariant[where P = buckets_ok] intro: empty_entities_ok call_step_ok)

lemma interaction_participant_step_ok:
  assumes "interaction_participant_step p b = Inr b'" and "buckets_ok b"
  shows "buckets_ok b'"
proof (cases "\<exists>s. p = PStr s \<and> str_contains ''@'' s")
  case True
  with assms(1) obtain person where
    "extract_person_from_email p = Inr person"
    "b' = (case person of Some p \<Rightarrow> extend_bucket ''people'' [p] b | None \<Rightarrow> b)"
    by (auto simp: interaction_participant_step_def bindE_eq_Inr split: option.splits)
  then show ?thesis using add_person_ok assms(2) by simp
next
  case False
  with assms have "b' = b"
    by (cases p) (auto simp: interaction_participant_step_def split: if_splits)
  then show ?thesis using assms(2) by simp
qed

lemma interaction_step_ok:
  assumes "interaction_step rt c b = Inr b'" and "buckets_ok b"
  shows "buckets_ok b'"
proof (cases c)
  case (PDict d)
  with assms(1) obtain ps b1 topics ev where
    b1: "for_each interaction_participant_step ps b = Inr b1"
    and tp: "extract_topics_from_text (dict_get d ''summary'' (PStr [])) = Inr topics"
    and b': "b' = extend_bucket ''events'' [ev] (extend_bucket ''topics'' topics b1)"
    and ev: "entity_ok ''events'' ev"
    by (auto simp: interaction_step_def Let_def bindE_eq_Inr entity_ok_def confidence_ok_def dict_has_def nonempty_id_def id_exempt_def)
  have "buckets_ok b1"
    using b1 assms(2) by (rule for_each_invariant) (rule interaction_participant_step_ok)
  then show ?thesis
    unfolding b' using ev topics_ok[OF tp] by (intro buckets_ok_extend) auto
qed (use assms in \<open>auto simp: interaction_step_def\<close>)

lemma extract_from_interactions_ok:
  "extract_from_interactions rt v = Inr b \<Longrightarrow> buckets_ok b"
  unfolding extract_from_interactions_def bindE_eq_Inr
  by (auto elim!: for_each_invariant[where P = buckets_ok] intro: empty_entities_ok interaction_step_ok)

lemma document_step_ok:
  assumes "document_step rt c b = Inr b'" and "buckets_ok b"
  shows "buckets_ok b'"
proof (cases c)
  case (PDict d)
  with assms(1) obtain tt topics ev where
    tp: "extract_topics_from_text (PStr tt) = Inr topics"
    and b': "b' = extend_bucket ''events'' [ev] (extend_bucket ''topics'' topics b)"
    and ev: "entity_ok ''events'' ev"
    by (auto simp: document_step_def Let_def bindE_eq_Inr entity_ok_def confidence_ok_def dict_has_def nonempty_id_def id_exempt_def)
  show ?thesis
    unfolding b' using ev topics_ok[OF tp] assms(2) by (intro buckets_ok_extend) auto
qed (use assms in \<open>auto simp: document_step_def\<close>)

lemma extract_from_documents_ok:
  "extract_from_documents rt v = Inr b \<Longrightarrow> buckets_ok b"
  unfolding extract_from_documents_def bindE_eq_Inr
  by (auto elim!: for_each_invariant[where P = buckets_ok] intro: empty_entities_ok document_step_ok)

lemma stakeholder_step_ok:
  "stakeholder_step s people = Inr people' \<Longrightarrow> list_all (entity_ok ''people'') people
    \<Longrightarrow> list_all (entity_ok ''people'') people'"
  by (cases s) (auto simp: stakeholder_step_def bindE_eq_Inr entity_ok_def confidence_ok_def dict_has_def nonempty_id_def id_exempt_def)

lemma stakeholders_ok:
  "extract_people_from_stakeholders v = Inr people \<Longrightarrow> list_all (entity_ok ''people'') people"
  unfolding extract_people_from_stakeholders_def bindE_eq_Inr
  by (auto elim!: for_each_invariant[where P = "list_all (entity_ok ''people'')"] intro: stakeholder_step_ok)

lemma merge_source_ok:
  assumes "merge_source d k ex b = Inr b'" and "buckets_ok b"
    and "\<And>v r. ex v = Inr r \<Longrightarrow> buckets_ok r"
  shows "buckets_ok b'"
  using assms
  by (auto simp: merge_source_def bindE_eq_Inr split: if_splits intro!: buckets_ok_merge)

lemma gather_entities_ok:
  assumes "gather_entities rt d = Inr b"
  shows "buckets_ok b"
proof -
  define e0 :: buckets where "e0 = [(''people'', []), (''organizations'', []), (''topics'', []),
                       (''events'', []), (''relationships'', [])]"
  have e0: "buckets_ok e0" by (simp add: e0_def buckets_ok_def)
  from assms obtain e1 e2 e3 e4 e5 org where
    s1: "(if dict_has d ''stakeholders''
                then bindE (dict_index d ''stakeholders'') (\<lambda>raw.
                     bindE (extract_people_from_stakeholders raw) (\<lambda>people.
                       Inr (extend_bucket ''people'' people e0)))
                else Inr e0) = Inr e1"
    and s2: "merge_source d ''emails'' (extract_from_emails rt) e1 = Inr e2"
    and s3: "merge_source d ''calls'' (extract_from_calls rt) e2 = Inr e3"
    and s4: "merge_source d ''interactions'' (extract_from_interactions rt) e3 = Inr e4"
    and s5: "merge_source d ''documents'' (extract_from_documents rt) e4 = Inr e5"
    and b: "b = extend_bucket ''organizations'' [org] e5"
    and org: "entity_ok ''organizations'' org"
    unfolding gather_entities_def Let_def e0_def[symmetric] bindE_eq_Inr
    by (auto simp: entity_ok_def confidence_ok_def dict_has_def nonempty_id_def id_exempt_def)
  have "buckets_ok e1"
    using s1 e0 by (auto simp: bindE_eq_Inr split: if_splits intro!: buckets_ok_extend dest: stakeholders_ok)
  then have "buckets_ok e2" by (rule merge_source_ok[OF s2]) (rule extract_from_emails_ok)
  then have "buckets_ok e3" by (rule merge_source_ok[OF s3]) (rule extract_from_calls_ok)
  then have "buckets_ok e4" by (rule merge_source_ok[OF s4]) (rule extract_from_interactions_ok)
  then have "buckets_ok e5" by (rule merge_source_ok[OF s5]) (rule extract_from_documents_ok)
  then show ?thesis unfolding b using org by (intro buckets_ok_extend) auto
qed

lemma deduplicate_ok:
  assumes "deduplicate_entities X = Inr Y" and "buckets_ok X"
  shows "buckets_ok Y"
  unfolding buckets_ok_def
proof (intro ballI impI)
  fix kv' assume kv': "kv' \<in> set Y" "fst kv' \<noteq> ''relationships''"
  from dedup_rel[OF assms(1)] kv'(1) obtain kv where
    kv: "kv \<in> set X" "fst kv' = fst kv" "(if fst kv = ''relationships'' then snd kv' = snd kv
         else unique_entities [] (snd kv) = Inr (snd kv'))"
    by (auto dest!: list_all2_pick)
  then have "subseq (snd kv') (snd kv)" using kv'(2) by (auto dest: unique_entities_subseq)
  then have "set (snd kv') \<subseteq> set (snd kv)" by (auto elim: list_emb_set)
  moreover have "list_all (entity_ok (fst kv)) (snd kv)" using assms(2) kv kv'(2) by (auto simp: buckets_ok_def)
  ultimately show "list_all (entity_ok (fst kv')) (snd kv')" using kv(2) by (auto simp: list_all_iff)
qed

lemma extract_ok:
  assumes "extract_from_account_data rt d r = Inr out"
  shows "buckets_ok out"
proof -
  from assms obtain e e1 where e: "gather_entities rt d = Inr e"
    and e1: "(if r then bindE (extract_relationships rt e) (\<lambda>relationships.
                   Inr (AList.update ''relationships'' relationships e))
            else Inr e) = Inr e1"
    and out: "deduplicate_entities e1 = Inr out"
    by (auto simp: extract_from_account_data_def bindE_eq_Inr)
  have "buckets_ok e" using e by (rule gather_entities_ok)
  then have "buckets_ok e1" using e1 by (auto simp: bindE_eq_Inr split: if_splits intro!: buckets_ok_update)
  then show ?thesis using out deduplicate_ok by blast
qed

text \<open>
  C1, as stated, fails: a stakeholder record without a name yields a Person whose id is
  the empty string.  So do a call participant with an empty name, a call with an empty
  call id and an account with an empty name.
\<close>

theorem empty_id_counterexample:
  "extract_from_account_data plain_runtime nameless_stakeholder_account True =
     Inr [(''people'',
           [[(''id'', PStr []), (''name'', PStr []), (''email'', PStr ''jane@acme.com''),
             (''role'', PStr []), (''department'', PStr []), (''organization'', PStr []),
             (''influence'', PStr ''medium''), (''confidence'', PFloat 0.9),
             (''source'', PStr ''stakeholder_data'')]]),
          (''organizations'', [acme_organization]),
          (''topics'', []), (''events'', []), (''relationships'', [])]
   \<and> \<not> nonempty_id
         [(''id'', PStr []), (''name'', PStr []), (''email'', PStr ''jane@acme.com''),
          (''role'', PStr []), (''department'', PStr []), (''organization'', PStr []),
          (''influence'', PStr ''medium''), (''confidence'', PFloat 0.9),
          (''source'', PStr ''stakeholder_data'')]
   \<and> extract_from_account_data plain_runtime empty_names_account True =
     Inr [(''people'',
           [[(''id'', PStr []), (''name'', PStr []), (''confidence'', PFloat 0.7),
             (''source'', PStr ''call_data'')]]),
          (''organizations'',
           [[(''id'', PStr []), (''name'', PStr []), (''type'', PStr ''primary_account''),
             (''industry'', PStr ''technology''), (''confidence'', PFloat 1)]]),
          (''topics'', []),
          (''events'',
           [[(''id'', PStr []), (''type'', PStr ''call''), (''date'', PStr []),
             (''summary'', PStr []), (''participants'', PList [PStr []]),
             (''duration'', PStr []), (''sentiment'', PStr ''neutral''),
             (''confidence'', PFloat 0.8), (''source'', PStr ''call_data'')]]),
          (''relationships'',
           [[(''source'', PStr []), (''target'', PStr []), (''type'', PStr ''PARTICIPATED_IN''),
             (''strength'', PFloat 0.9), (''context'', PStr ''call'')]])]"
  by (simp add: eval_defs example_defs Let_def cong: let_weak_cong bindE_weak_cong)

text \<open>
  C1, amended.  Whenever extraction returns, every entity of the people, organizations,
  topics and events buckets has a confidence in [0,1] and an id field, and its id is a
  non-empty string unless its source is "stakeholder_data" or "call_data" or its type is
  "primary_account"; the id of a topic is always a non-empty string.
\<close>

theorem extracted_entities_confidence:
  assumes "extract_from_account_data rt account_data extract_rels = Inr extracted"
    and "k \<in> set [''people'', ''organizations'', ''topics'', ''events'']"
    and "e \<in> set (dict_get extracted k [])"
  shows "confidence_ok e \<and> dict_has e ''id'' \<and> (k = ''topics'' \<longrightarrow> nonempty_id e)
         \<and> (nonempty_id e \<or> id_exempt e)"
proof -
  have "buckets_ok extracted" using assms(1) by (rule extract_ok)
  moreover have "k \<noteq> ''relationships''" using assms(2) by auto
  ultimately have "list_all (entity_ok k) (dict_get extracted k [])" by (rule buckets_ok_get)
  then show ?thesis using assms(3) by (auto simp: list_all_iff entity_ok_def)
qed

text \<open>Witness for C1, amended: the topic extracted from a one-document account.\<close>

theorem extracted_entities_confidence_witness:
  "extract_from_account_data plain_runtime document_account True =
     Inr [(''people'', []),
          (''organizations'', [acme_organization]),
          (''topics'',
           [[(''id'', PStr ''topic_pricing''), (''name'', PStr ''Pricing''),
             (''category'', PStr ''pricing''), (''importance'', PFloat 0.25),
             (''keyword_matches'', PInt 2), (''confidence'', PFloat 0.475),
             (''source'', PStr ''text_analysis'')]]),
          (''events'',
           [[(''id'', PStr ''document_d1''), (''type'', PStr ''document''), (''date'', PStr []),
             (''subject'', PStr ''Pricing''), (''summary'', PStr ''budget''),
             (''confidence'', PFloat 0.6), (''source'', PStr ''document_data'')]]),
          (''relationships'',
           [[(''source'', PStr ''document_d1''), (''target'', PStr ''topic_pricing''),
             (''type'', PStr ''DISCUSSED''), (''strength'', PFloat 0.25),
             (''context'', PStr ''topic_discussion'')]])]
   \<and> confidence_ok
         [(''id'', PStr ''topic_pricing''), (''name'', PStr ''Pricing''),
          (''category'', PStr ''pricing''), (''importance'', PFloat 0.25),
          (''keyword_matches'', PInt 2), (''confidence'', PFloat 0.475),
          (''source'', PStr ''text_analysis'')]
   \<and> nonempty_id
         [(''id'', PStr ''topic_pricing''), (''name'', PStr ''Pricing''),
          (''category'', PStr ''pricing''), (''importance'', PFloat 0.25),
          (''keyword_matches'', PInt 2), (''confidence'', PFloat 0.475),
          (''source'', PStr ''text_analysis'')]"
proof -
  let ?topic = "[(''id'', PStr ''topic_pricing''), (''name'', PStr ''Pricing''),
             (''category'', PStr ''pricing''), (''importance'', PFloat 0.25),
             (''keyword_matches'', PInt 2), (''confidence'', PFloat 0.475),
             (''source'', PStr ''text_analysis'')]"
  let ?out = "[(''people'', []),
          (''organizations'', [acme_organization]),
          (''topics'', [?topic]),
          (''events'',
           [[(''id'', PStr ''document_d1''), (''type'', PStr ''document''), (''date'', PStr []),
             (''subject'', PStr ''Pricing''), (''summary'', PStr ''budget''),
             (''confidence'', PFloat 0.6), (''source'', PStr ''document_data'')]]),
          (''relationships'',
           [[(''source'', PStr ''document_d1''), (''target'', PStr ''topic_pricing''),
             (''type'', PStr ''DISCUSSED''), (''strength'', PFloat 0.25),
             (''context'', PStr ''topic_discussion'')]])]"
  have run: "extract_from_account_data plain_runtime document_account True = Inr ?out"
    by (simp add: eval_defs example_defs Let_def cong: let_weak_cong bindE_weak_cong)
  have bucket: "''topics'' \<in> set [''people'', ''organizations'', ''topics'', ''events'']"
    by simp
  have member: "?topic \<in> set (dict_get ?out ''topics'' [])"
    by (simp add: dict_get_def)
  show ?thesis
    using extracted_entities_confidence[OF run bucket member] run by simp
qed

text \<open>
  C3.  Extraction raises on a call record whose participants list holds a non-string
  item, and on one whose transcript holds a non-dictionary turn: \<^verbatim>\<open>participant.lower()\<close>
  and \<^verbatim>\<open>turn.get\<close> are applied without the \<^verbatim>\<open>isinstance\<close> test that the other
  loops make.
\<close>

theorem call_extraction_raises:
  "extract_from_account_data plain_runtime numeric_participant_account True = Inl AttributeError
   \<and> extract_from_account_data plain_runtime string_turn_account True = Inl AttributeError"
  by (simp add: eval_defs example_defs Let_def cong: let_weak_cong bindE_weak_cong)

text \<open>
  C4, as stated, fails: for an account that lists one stakeholder twice the returned
  relationships hold two WORKS_FOR edges, while relationship inference on the returned,
  deduplicated buckets gives one.
\<close>

theorem relationships_of_deduplicated_counterexample:
  "extract_from_account_data plain_runtime duplicate_stakeholder_account True =
     Inr [(''people'', [jane_person]), (''organizations'', [acme_organization]),
          (''topics'', []), (''events'', []),
          (''relationships'', [jane_works_for_acme, jane_works_for_acme])]
   \<and> extract_relationships plain_runtime
        [(''people'', [jane_person]), (''organizations'', [acme_organization]),
         (''topics'', []), (''events'', []),
         (''relationships'', [jane_works_for_acme, jane_works_for_acme])]
      = Inr [jane_works_for_acme]
   \<and> [jane_works_for_acme, jane_works_for_acme] \<noteq> [jane_works_for_acme]"
  by (simp add: eval_defs example_defs Let_def cong: let_weak_cong bindE_weak_cong)

text \<open>
  C4, amended.  With relationship extraction requested, the returned relationships are
  relationship inference applied to the gathered buckets before deduplication, and
  every returned entity bucket is the deduplication of the gathered one;
  deduplication runs last and leaves the relationships as they are.
\<close>

theorem relationships_before_deduplication:
  assumes "extract_from_account_data rt account_data True = Inr extracted"
  shows "\<exists>gathered. gather_entities rt account_data = Inr gathered
           \<and> extract_relationships rt gathered = Inr (dict_get extracted ''relationships'' [])
           \<and> (\<forall>k. k \<noteq> ''relationships'' \<longrightarrow>
                 unique_entities [] (dict_get gathered k []) = Inr (dict_get extracted k []))"
proof -
  from assms obtain gathered rels where g: "gather_entities rt account_data = Inr gathered"
    and r: "extract_relationships rt gathered = Inr rels"
    and d: "deduplicate_entities (AList.update ''relationships'' rels gathered) = Inr extracted"
    by (auto simp: extract_from_account_data_def bindE_eq_Inr)
  have "dict_get extracted ''relationships'' [] = rels"
    using dedup_relationships[OF d] by (simp add: dict_get_update_same)
  moreover have "unique_entities [] (dict_get gathered k []) = Inr (dict_get extracted k [])"
    if "k \<noteq> ''relationships''" for k
    using dedup_bucket[OF d that] that by (simp add: dict_get_update_other)
  ultimately show ?thesis using g r by auto
qed

text \<open>Witness for C4, amended: the account that lists one stakeholder twice.\<close>

theorem relationships_before_deduplication_witness:
  "extract_from_account_data plain_runtime duplicate_stakeholder_account True =
     Inr [(''people'', [jane_person]), (''organizations'', [acme_organization]),
          (''topics'', []), (''events'', []),
          (''relationships'', [jane_works_for_acme, jane_works_for_acme])]
   \<and> gather_entities plain_runtime duplicate_stakeholder_account =
     Inr [(''people'', [jane_person, jane_person]), (''organizations'', [acme_organization]),
          (''topics'', []), (''events'', []), (''relationships'', [])]
   \<and> extract_relationships plain_runtime
        [(''people'', [jane_person, jane_person]), (''organizations'', [acme_organization]),
         (''topics'', []), (''events'', []), (''relationships'', [])]
      = Inr [jane_works_for_acme, jane_works_for_acme]
   \<and> unique_entities [] [jane_person, jane_person] = Inr [jane_person]"
proof -
  define out :: buckets where "out = [(''people'', [jane_person]), (''organizations'', [acme_organization]),
          (''topics'', []), (''events'', []),
          (''relationships'', [jane_works_for_acme, jane_works_for_acme])]"
  define gathered :: buckets where "gathered = [(''people'', [jane_person, jane_person]), (''organizations'', [acme_organization]),
          (''topics'', []), (''events'', []), (''relationships'', [])]"
  have run: "extract_from_account_data plain_runtime duplicate_stakeholder_account True = Inr out"
    unfolding out_def by (simp add: eval_defs example_defs Let_def cong: let_weak_cong bindE_weak_cong)
  have g: "gather_entities plain_runtime duplicate_stakeholder_account = Inr gathered"
    unfolding gathered_def by (simp add: eval_defs example_defs Let_def cong: let_weak_cong bindE_weak_cong)
  from relationships_before_deduplication[OF run] obtain g' where
    g': "gather_entities plain_runtime duplicate_stakeholder_account = Inr g'"
    and r: "extract_relationships plain_runtime g' = Inr (dict_get out ''relationships'' [])"
    and u: "\<forall>k. k \<noteq> ''relationships'' \<longrightarrow> unique_entities [] (dict_get g' k []) = Inr (dict_get out k [])"
    by blast
  have eq: "g' = gathered" using g g' by simp
  have people: "''people'' \<noteq> ''relationships''" by simp
  have r': "extract_relationships plain_runtime gathered = Inr [jane_works_for_acme, jane_works_for_acme]"
    using r unfolding eq by (simp add: out_def dict_get_def)
  have u': "unique_entities [] [jane_person, jane_person] = Inr [jane_person]"
    using u[rule_format, OF people] unfolding eq by (simp add: out_def gathered_def dict_get_def)
  show ?thesis
    using run g r' u' unfolding out_def gathered_def by (intro conjI)
qed

subsection \<open>Ranking\<close>

lemma type_by_prefix:
  assumes "t \<in> set insight_types" and "u \<in> set insight_types" and "take 2 t = take 2 u"
  shows "t = u"
proof -
  have "distinct (map (take 2) insight_types)"
    by (simp add: insight_types_def)
  then have "inj_on (take 2) (set insight_types)"
    by (simp add: distinct_map)
  then show ?thesis using assms unfolding inj_on_def by blast
qed

lemma key_prefix:
  assumes "t \<in> set insight_types"
  shows "take 2 (t @ rest) = take 2 t"
proof -
  have "\<forall>t \<in> set insight_types. 2 \<le> length t"
    by (simp add: insight_types_def)
  then have "2 \<le> length t" using assms by blast
  then show ?thesis by simp
qed
lemma insight_key_eq:
  assumes "itype a \<in> set insight_types" and "itype b \<in> set insight_types"
  shows "insight_key a = insight_key b \<longleftrightarrow> spec_key a = spec_key b"
proof
  assume eq: "insight_key a = insight_key b"
  then have "take 2 (insight_key a) = take 2 (insight_key b)" by simp
  then have "take 2 (itype a) = take 2 (itype b)"
    unfolding insight_key_def key_prefix[OF assms(1)] key_prefix[OF assms(2)] .
  then have "itype a = itype b" using assms type_by_prefix by blast
  then show "spec_key a = spec_key b" using eq by (simp add: insight_key_def spec_key_def)
next
  assume "spec_key a = spec_key b"
  then show "insight_key a = insight_key b" by (simp add: insight_key_def spec_key_def)
qed

lemma unique_insights_filter:
  "unique_insights S xs = first_occurrences insight_key (filter (\<lambda>x. insight_key x \<notin> set S) xs)"
proof (induction xs arbitrary: S)
  case Nil
  then show ?case by simp
next
  case (Cons x xs)
  have "filter (\<lambda>y. insight_key y \<noteq> insight_key x) (filter (\<lambda>y. insight_key y \<notin> set S) xs)
        = filter (\<lambda>y. insight_key y \<notin> set (S @ [insight_key x])) xs"
    by (auto intro: filter_cong)
  then show ?case using Cons.IH by simp
qed

lemma first_occurrences_subset: "set (first_occurrences k xs) \<subseteq> set xs"
  by (induction k xs rule: first_occurrences.induct) auto

lemma first_occurrences_cong:
  "(\<And>x y. x \<in> set xs \<Longrightarrow> y \<in> set xs \<Longrightarrow> (k1 x = k1 y) = (k2 x = k2 y))
    \<Longrightarrow> first_occurrences k1 xs = first_occurrences k2 xs"
proof (induction k1 xs rule: first_occurrences.induct)
  case (1 key)
  then show ?case by simp
next
  case (2 key x xs)
  have f: "filter (\<lambda>y. key y \<noteq> key x) xs = filter (\<lambda>y. k2 y \<noteq> k2 x) xs"
    using "2.prems" by (intro filter_cong) auto
  have "first_occurrences key (filter (\<lambda>y. key y \<noteq> key x) xs)
        = first_occurrences k2 (filter (\<lambda>y. key y \<noteq> key x) xs)"
    using "2.prems" by (intro "2.IH") auto
  then show ?case using f by simp
qed

lemma first_occurrences_keys: "k ` set (first_occurrences k xs) = k ` set xs"
proof (induction k xs rule: first_occurrences.induct)
  case (1 key)
  then show ?case by simp
next
  case (2 key x xs)
  then show ?case by auto
qed

lemma first_occurrences_distinct: "distinct (map k (first_occurrences k xs))"
proof (induction k xs rule: first_occurrences.induct)
  case (1 key)
  then show ?case by simp
next
  case (2 key x xs)
  have "key x \<notin> key ` set (first_occurrences key (filter (\<lambda>y. key y \<noteq> key x) xs))"
    using first_occurrences_subset[of key "filter (\<lambda>y. key y \<noteq> key x) xs"] by auto
  then show ?case using 2 by simp
qed

lemma first_occurrences_length: "length (first_occurrences k xs) = card (k ` set xs)"
proof -
  have "length (first_occurrences k xs) = length (map k (first_occurrences k xs))" by simp
  also have "\<dots> = card (set (map k (first_occurrences k xs)))"
    using first_occurrences_distinct by (metis distinct_card)
  also have "\<dots> = card (k ` set xs)" by (simp add: first_occurrences_keys)
  finally show ?thesis .
qed

lemma first_occurrences_hd: "xs \<noteq> [] \<Longrightarrow> hd (first_occurrences k xs) = hd xs"
  by (cases xs) auto

lemma sorted_desc_mset: "mset (sorted_desc f xs) = mset xs"
  by (simp add: sorted_desc_def)

lemma sorted_desc_sorted: "sorted_wrt (\<lambda>a b. f a \<ge> f b) (sorted_desc f xs)"
proof -
  have "sorted (map (\<lambda>x. - f x) (sort_key (\<lambda>x. - f x) xs))" by (rule sorted_sort_key)
  then show ?thesis by (simp add: sorted_desc_def sorted_map)
qed

lemma sorted_desc_stable: "filter (\<lambda>x. f x = c) (sorted_desc f xs) = filter (\<lambda>x. f x = c) xs"
proof -
  have "filter (\<lambda>x. - f x = - c) (sort_key (\<lambda>x. - f x) xs) = filter (\<lambda>x. - f x = - c) xs"
    by (rule sort_key_stable)
  then show ?thesis by (simp add: sorted_desc_def)
qed

lemma sorted_desc_hd:
  assumes "x \<in> set xs" and "\<forall>y \<in> set xs. f y \<le> f x"
  shows "f (hd (sorted_desc f xs)) = f x"
proof -
  let ?ys = "sorted_desc f xs"
  have set: "set ?ys = set xs" by (metis sorted_desc_mset set_mset_mset)
  then have ne: "?ys \<noteq> []" using assms(1) by auto
  then have hd_in: "hd ?ys \<in> set xs" using set by (metis hd_in_set)
  have "f x \<le> f (hd ?ys)"
  proof (cases "hd ?ys = x")
    case True
    then show ?thesis by simp
  next
    case False
    have "x \<in> set ?ys" using assms(1) set by simp
    then have "x \<in> set (tl ?ys)" using False ne by (cases ?ys) auto
    moreover have "sorted_wrt (\<lambda>a b. f a \<ge> f b) (hd ?ys # tl ?ys)"
      using sorted_desc_sorted[of f xs] ne by simp
    ultimately show ?thesis by auto
  qed
  moreover have "f (hd ?ys) \<le> f x" using hd_in assms(2) by auto
  ultimately show ?thesis by simp
qed

lemma sorted_desc_length: "length (sorted_desc f xs) = length xs"
  by (simp add: sorted_desc_def)

lemma first_occurrences_hd_mem: "xs \<noteq> [] \<Longrightarrow> hd xs \<in> set (first_occurrences k xs)"
  by (cases xs) simp_all

lemma example_confidences:
  fixes f :: "'a \<Rightarrow> real"
  assumes c: "map f xs = [0.9, 0.9, 0.6, 0.3, 0.9]"
  shows "xs \<noteq> []" and "f (hd xs) = 0.9" and "\<forall>y \<in> set xs. f y \<le> 0.9"
proof -
  show "xs \<noteq> []" using c by auto
  then show "f (hd xs) = 0.9" using c by (cases xs) auto
  show "\<forall>y \<in> set xs. f y \<le> 0.9"
  proof
    fix y assume "y \<in> set xs"
    then have "f y \<in> set (map f xs)" by simp
    then show "f y \<le> 0.9" unfolding c by auto
  qed
qed

lemma ranked_example:
  fixes f :: "'a \<Rightarrow> real"
  assumes c: "map f xs = [0.9, 0.9, 0.6, 0.3, 0.9]" and k: "card (key ` set xs) = 4"
  shows "length (sorted_desc f (first_occurrences key xs)) = 4
       \<and> f (hd (sorted_desc f (first_occurrences key xs))) = 0.9"
proof -
  let ?d = "first_occurrences key xs"
  note e = example_confidences[OF c]
  have len: "length (sorted_desc f ?d) = 4"
    unfolding sorted_desc_length first_occurrences_length by (rule k)
  have mem: "hd xs \<in> set ?d"
    using e(1) by (rule first_occurrences_hd_mem)
  have "\<forall>y \<in> set ?d. f y \<le> f (hd xs)"
    using e(3) first_occurrences_subset[of key xs] unfolding e(2) by blast
  with mem have "f (hd (sorted_desc f ?d)) = f (hd xs)"
    by (rule sorted_desc_hd)
  then show ?thesis using len e(2) by simp
qed

lemma unique_insights_spec:
  assumes "\<forall>i \<in> set insights. itype i \<in> set insight_types"
  shows "unique_insights [] insights = first_occurrences spec_key insights"
  unfolding unique_insights_filter using assms
  by (auto intro!: first_occurrences_cong insight_key_eq)

text \<open>
  C5.  For candidate insights of the analyzers' types, the ranker keeps the first
  occurrence of every key (type, first 50 characters of the summary) and sorts what is
  left by descending confidence with a stable sort: the result is a permutation of the
  first occurrences, any insight that precedes another has at least its confidence,
  and insights of equal confidence keep their input order.  In particular, five
  candidates with confidences 0.9, 0.9, 0.6, 0.3, 0.9 and four distinct keys give a
  result of length 4 whose first element has confidence 0.9.
\<close>

theorem rank_and_deduplicate_insights_properties:
  assumes "\<forall>i \<in> set insights. itype i \<in> set insight_types"
  shows "unique_insights [] insights = first_occurrences spec_key insights
       \<and> mset (rank_and_deduplicate_insights insights) = mset (first_occurrences spec_key insights)
       \<and> descending (rank_and_deduplicate_insights insights)
       \<and> (\<forall>c. filter (\<lambda>i. confidence i = c) (rank_and_deduplicate_insights insights)
              = filter (\<lambda>i. confidence i = c) (first_occurrences spec_key insights))
       \<and> (map confidence insights = [0.9, 0.9, 0.6, 0.3, 0.9] \<and> card (spec_key ` set insights) = 4
            \<longrightarrow> length (rank_and_deduplicate_insights insights) = 4
              \<and> confidence (hd (rank_and_deduplicate_insights insights)) = 0.9)"
proof -
  note u = unique_insights_spec[OF assms]
  have r: "rank_and_deduplicate_insights insights
           = sorted_desc confidence (first_occurrences spec_key insights)"
    by (simp add: rank_and_deduplicate_insights_def u)
  show ?thesis
    unfolding r descending_def
  proof (intro conjI allI)
    show "unique_insights [] insights = first_occurrences spec_key insights"
      by (rule u)
    show "mset (sorted_desc confidence (first_occurrences spec_key insights))
          = mset (first_occurrences spec_key insights)"
      by (rule sorted_desc_mset)
    show "sorted_wrt (\<lambda>a b. confidence a \<ge> confidence b)
            (sorted_desc confidence (first_occurrences spec_key insights))"
      by (rule sorted_desc_sorted)
    show "filter (\<lambda>i. confidence i = c) (sorted_desc confidence (first_occurrences spec_key insights))
          = filter (\<lambda>i. confidence i = c) (first_occurrences spec_key insights)" for c
      by (rule sorted_desc_stable)
    show "map confidence insights = [0.9, 0.9, 0.6, 0.3, 0.9] \<and> card (spec_key ` set insights) = 4
            \<longrightarrow> length (sorted_desc confidence (first_occurrences spec_key insights)) = 4
              \<and> confidence (hd (sorted_desc confidence (first_occurrences spec_key insights))) = 0.9"
    proof
      assume "map confidence insights = [0.9, 0.9, 0.6, 0.3, 0.9] \<and> card (spec_key ` set insights) = 4"
      then have c: "map confidence insights = [0.9, 0.9, 0.6, 0.3, 0.9]"
        and k: "card (spec_key ` set insights) = 4"
        by simp_all
      show "length (sorted_desc confidence (first_occurrences spec_key insights)) = 4
              \<and> confidence (hd (sorted_desc confidence (first_occurrences spec_key insights))) = 0.9"
        using c k by (rule ranked_example)
    qed
  qed
qed

text \<open>Witness for C5: the five example candidates.\<close>

theorem rank_and_deduplicate_insights_properties_witness:
  "list_all (\<lambda>i. itype i \<in> set insight_types) example_insights
   \<and> map confidence example_insights = [0.9, 0.9, 0.6, 0.3, 0.9]
   \<and> card (spec_key ` set example_insights) = 4
   \<and> rank_and_deduplicate_insights example_insights
       = [correlation_insight, community_insight, temporal_insight, hop_insight]
   \<and> length (rank_and_deduplicate_insights example_insights) = 4
   \<and> confidence (hd (rank_and_deduplicate_insights example_insights)) = 0.9"
proof -
  note defs = example_insights_def correlation_insight_def community_insight_def
    temporal_insight_def hop_insight_def repeated_insight_def
  have types: "\<forall>i \<in> set example_insights. itype i \<in> set insight_types"
    by (simp add: defs insight_types_def)
  have c: "map confidence example_insights = [0.9, 0.9, 0.6, 0.3, 0.9]"
    by (simp add: defs)
  have k: "card (spec_key ` set example_insights) = 4"
    by (simp only: set_map[symmetric] card_set) (simp add: defs spec_key_def)
  have run: "rank_and_deduplicate_insights example_insights
             = [correlation_insight, community_insight, temporal_insight, hop_insight]"
    by (simp add: defs rank_and_deduplicate_insights_def insight_key_def sorted_desc_def)
  note P = rank_and_deduplicate_insights_properties[OF types]
  have "length (rank_and_deduplicate_insights example_insights) = 4
        \<and> confidence (hd (rank_and_deduplicate_insights example_insights)) = 0.9"
    using P[THEN conjunct2, THEN conjunct2, THEN conjunct2, THEN conjunct2] conjI[OF c k]
    by (rule mp)
  then show ?thesis
    using types c k run by (simp add: list_all_iff)
qed

subsection \<open>Topic classifier\<close>

text \<open>
  C7.  The text "We discussed pricing and budget concerns" is classified as exactly one
  topic, of category "pricing": two of the eight pricing keywords occur in it
  ("budget" and "pricing"), so its match count is 2, its importance 2/8 = 0.25 and its
  confidence 0.3 + 0.7 * 0.25 = 0.475.  No other category matches and the text has no
  capitalized phrase.
\<close>

theorem pricing_example:
  "extract_topics_from_text (PStr ''We discussed pricing and budget concerns'') =
     Inr [[(''id'', PStr ''topic_pricing''),
           (''name'', PStr ''Pricing''),
           (''category'', PStr ''pricing''),
           (''importance'', PFloat 0.25),
           (''keyword_matches'', PInt 2),
           (''confidence'', PFloat 0.475),
           (''source'', PStr ''text_analysis'')]]"
  by code_simp

end
